theory Spec2Isabelle
  imports Complex_Main "HOL-Library.Stream"
begin

section \<open>Values shared by the scripts\<close>

text \<open>
  The exceptions the modelled code can raise. \<open>ShapeError\<close> stands for the
  \<open>RuntimeError\<close> PyTorch raises on incompatible tensor shapes.
\<close>

datatype error = IndexError | ValueError | ZeroDivisionError | ShapeError

text \<open>
  A Python \<open>float\<close> as far as its value class matters: a finite number, an infinity or
  NaN. Finite values are exact reals: rounding and overflow to infinity are not modelled.
\<close>

datatype pyfloat = Fin real | PInf | NInf | NaN


fun is_nan :: "pyfloat \<Rightarrow> bool" where
  "is_nan NaN = True"
| "is_nan (Fin x) = False"
| "is_nan PInf = False"
| "is_nan NInf = False"

text \<open>IEEE addition: NaN is absorbing, and opposite infinities add to NaN.\<close>

fun fadd :: "pyfloat \<Rightarrow> pyfloat \<Rightarrow> pyfloat" where
  "fadd (Fin x) (Fin y) = Fin (x + y)"
| "fadd NaN b = NaN"
| "fadd a NaN = NaN"
| "fadd PInf NInf = NaN"
| "fadd NInf PInf = NaN"
| "fadd PInf b = PInf"
| "fadd a PInf = PInf"
| "fadd NInf b = NInf"
| "fadd a NInf = NInf"

text \<open>IEEE \<open><\<close>: every comparison with NaN is false.\<close>

fun fless :: "pyfloat \<Rightarrow> pyfloat \<Rightarrow> bool" where
  "fless (Fin x) (Fin y) = (x < y)"
| "fless NaN b = False"
| "fless a NaN = False"
| "fless NInf NInf = False"
| "fless NInf b = True"
| "fless a NInf = False"
| "fless PInf b = False"
| "fless a PInf = True"

text \<open>
  \<open>total / data.num_windows\<close>: a Python float divided by a window count. Python raises
  \<open>ZeroDivisionError\<close> for a zero divisor; infinities and NaN pass through a positive one.
\<close>

fun fdiv_count :: "pyfloat \<Rightarrow> nat \<Rightarrow> error + pyfloat" where
  "fdiv_count a 0 = Inl ZeroDivisionError"
| "fdiv_count (Fin x) (Suc n) = Inr (Fin (x / real (Suc n)))"
| "fdiv_count a (Suc n) = Inr a"

section \<open>Evaluator: \<open>get_indexes_to_keep\<close> (test\_in.py)\<close>

text \<open>
  \<open>np.random.choice(a, num, replace=False)\<close> draws a random permutation of
  \<open>range(a)\<close> and returns its first \<open>num\<close> entries; it raises \<open>ValueError\<close> when
  \<open>num\<close> is negative or exceeds \<open>a\<close>. The permutation drawn by the generator is the
  parameter \<open>perm\<close>. Python's \<open>sorted\<close> is \<open>sort\<close>.
\<close>

definition random_choice :: "nat list \<Rightarrow> nat \<Rightarrow> int \<Rightarrow> error + nat list" where
  "random_choice perm a num =
     (if num < 0 \<or> int a < num then Inl ValueError else Inr (take (nat num) perm))"

text \<open>
  \<open>original_length * (1 - drop_rate)\<close> is float64 arithmetic: the difference and the
  product are each rounded to the nearest float64, ties to the even significand. A
  float64 in the normal range with exponent \<open>e\<close> is a multiple of \<open>2 ^ (e - 52)\<close>;
  \<open>pow2\<close> is the power of two for an integer exponent and \<open>float_exponent x\<close> the
  exponent of the binade of \<open>x\<close>. Subnormal numbers and overflow are left out: the
  values here lie between \<open>2 ^ -53\<close> and the length. \<open>drop_rate\<close> is the value of
  the float64 the function receives; the length is an integer, which the multiplication
  converts to the nearest float64 first.
\<close>

definition round_half_even :: "real \<Rightarrow> int" where
  "round_half_even x =
     (let f = \<lfloor>x\<rfloor>; r = x - of_int f
      in if r < 1 / 2 then f else if 1 / 2 < r then f + 1 else if even f then f else f + 1)"

definition pow2 :: "int \<Rightarrow> real" where
  "pow2 k = (if 0 \<le> k then 2 ^ nat k else 1 / 2 ^ nat (- k))"

definition float_exponent :: "real \<Rightarrow> int" where
  "float_exponent x = \<lfloor>log 2 \<bar>x\<bar>\<rfloor>"

definition round_float64 :: "real \<Rightarrow> real" where
  "round_float64 x =
     (if x = 0 then 0
      else of_int (round_half_even (x / pow2 (float_exponent x - 52))) * pow2 (float_exponent x - 52))"

text \<open>
  \<open>get_indexes_to_keep\<close>: \<open>np.floor\<close> of the float64 product, converted to an
  integer, is the number of indexes drawn.
\<close>

definition get_indexes_to_keep :: "nat list \<Rightarrow> nat \<Rightarrow> real \<Rightarrow> error + nat list" where
  "get_indexes_to_keep perm original_length drop_rate =
     (let num_to_keep =
            \<lfloor>round_float64 (round_float64 (real original_length) * round_float64 (1 - drop_rate))\<rfloor>
      in case random_choice perm original_length num_to_keep of
           Inl e \<Rightarrow> Inl e
         | Inr chosen \<Rightarrow> Inr (sort chosen))"

section \<open>Trainer: the checkpoint policy (train.py)\<close>

text \<open>
  The end of the epoch loop: \<open>lowest_valid_avg_loss\<close> starts as \<open>None\<close>; after epoch
  \<open>epoch\<close> the model is saved when it is still \<open>None\<close> or when the epoch's average
  validation loss is below it, and the variable is then updated. The state is the
  variable and the list of epochs at which \<open>torch.save\<close> was called.
\<close>

record checkpoint_state =
  lowest_valid_avg_loss :: "pyfloat option"
  saved_epochs :: "nat list"

definition should_save :: "pyfloat option \<Rightarrow> pyfloat \<Rightarrow> bool" where
  "should_save lowest valid_avg_loss =
     (case lowest of None \<Rightarrow> True | Some l \<Rightarrow> fless valid_avg_loss l)"

definition checkpoint_step :: "checkpoint_state \<Rightarrow> nat \<Rightarrow> pyfloat \<Rightarrow> checkpoint_state" where
  "checkpoint_step st epoch valid_avg_loss =
     (if should_save (lowest_valid_avg_loss st) valid_avg_loss
      then \<lparr>lowest_valid_avg_loss = Some valid_avg_loss,
            saved_epochs = saved_epochs st @ [epoch]\<rparr>
      else st)"

fun checkpoint_loop :: "checkpoint_state \<Rightarrow> nat \<Rightarrow> pyfloat list \<Rightarrow> checkpoint_state" where
  "checkpoint_loop st epoch [] = st"
| "checkpoint_loop st epoch (v # vs) = checkpoint_loop (checkpoint_step st epoch v) (Suc epoch) vs"

definition checkpoints :: "pyfloat list \<Rightarrow> nat list" where
  "checkpoints valid_avg_losses =
     saved_epochs (checkpoint_loop \<lparr>lowest_valid_avg_loss = None, saved_epochs = []\<rparr> 0 valid_avg_losses)"

section \<open>Trainer: the epoch loop (train.py)\<close>

text \<open>
  The two \<open>Data\<close> objects of \<open>train\<close>. The class itself is outside the scripts; a
  \<open>Data\<close> object is what the loop reads from it: the windows that \<open>windows()\<close> yields,
  in order, and the attributes \<open>num_windows\<close>, \<open>infect_means\<close> and \<open>infect_stds\<close>.
\<close>

datatype dataset = TrainData | ValidData

record 'w Data =
  windows :: "'w list"
  num_windows :: nat
  infect_means :: real
  infect_stds :: real

text \<open>
  PyTorch is opaque. \<open>'m\<close> is everything it keeps between calls: parameters, gradients,
  optimizer moments, the random generator. \<open>model_call\<close> is the forward pass of the
  model on one window (on the first 100 steps of it in validation), with the Dataset that
  \<open>model.odefunc.data\<close> references at the time of the call; it returns the prediction.
  \<open>loss_item\<close> is the loss of a prediction against the target of the window (lines 157
  to 161, which \<open>nll_loss\<close> below spells out for finite tensors and \<open>script_ops\<close>
  puts in this place) and its \<open>.item()\<close>, a Python float. The calls are taken to
  return: one that raises ends the script.
\<close>

datatype phase = Training | Validation

record ('m, 'w, 'p) torch_ops =
  zero_grad :: "'m \<Rightarrow> 'm"
  model_call :: "phase \<Rightarrow> dataset \<Rightarrow> 'w \<Rightarrow> 'm \<Rightarrow> 'p \<times> 'm"
  loss_item :: "'p \<Rightarrow> 'w \<Rightarrow> pyfloat"
  backward :: "'m \<Rightarrow> 'm"
  optimizer_step :: "'m \<Rightarrow> 'm"

text \<open>
  The statements of the loop body that touch the model, with epoch and window index.
  A trace pairs each statement with the Dataset that \<open>model.odefunc.data\<close> references
  when the statement starts.
\<close>

datatype op =
    ZeroGrad nat nat
  | TrainForward nat nat
  | PrintLoss nat nat pyfloat
  | Backward nat nat
  | OptimizerStep nat nat
  | SetData dataset nat nat
  | ValidForward nat nat
  | Save nat

type_synonym trace = "(op \<times> dataset) list"

record 'm trainer =
  torch :: 'm
  odefunc_data :: dataset
  ckpt :: checkpoint_state
  all_train_avg_loss :: "pyfloat list"
  all_valid_avg_loss :: "pyfloat list"

text \<open>One training window: the body of the inner loop, lines 150 to 170.\<close>

definition train_window ::
  "('m, 'w, 'p) torch_ops \<Rightarrow> nat \<Rightarrow> nat \<Rightarrow> 'w \<Rightarrow> 'm trainer \<times> pyfloat \<Rightarrow> ('m trainer \<times> pyfloat) \<times> trace" where
  "train_window ops epoch i w s =
     (let st = fst s; train_total_loss = snd s;
          d = odefunc_data st;
          m1 = zero_grad ops (torch st);
          mc = model_call ops Training d w m1;
          train_loss = loss_item ops (fst mc) w;
          total = fadd train_total_loss train_loss;
          m3 = backward ops (snd mc);
          m4 = optimizer_step ops m3
      in ((st\<lparr>torch := m4\<rparr>, total),
          [(ZeroGrad epoch i, d), (TrainForward epoch i, d), (PrintLoss epoch i train_loss, d),
           (Backward epoch i, d), (OptimizerStep epoch i, d)]))"

fun train_windows ::
  "('m, 'w, 'p) torch_ops \<Rightarrow> nat \<Rightarrow> nat \<Rightarrow> 'w list \<Rightarrow> 'm trainer \<times> pyfloat \<Rightarrow> ('m trainer \<times> pyfloat) \<times> trace" where
  "train_windows ops epoch i [] s = (s, [])"
| "train_windows ops epoch i (w # ws) s =
     (let r1 = train_window ops epoch i w s;
          r2 = train_windows ops epoch (Suc i) ws (fst r1)
      in (fst r2, snd r1 @ snd r2))"

text \<open>
  One validation window, lines 184 to 205: the live Dataset is switched to the validation
  Dataset, the model is called, and the training Dataset is put back.
\<close>

definition valid_window ::
  "('m, 'w, 'p) torch_ops \<Rightarrow> nat \<Rightarrow> nat \<Rightarrow> 'w \<Rightarrow> 'm trainer \<times> pyfloat \<Rightarrow> ('m trainer \<times> pyfloat) \<times> trace" where
  "valid_window ops epoch i w s =
     (let st = fst s; valid_total_loss = snd s;
          st1 = st\<lparr>odefunc_data := ValidData\<rparr>;
          mc = model_call ops Validation (odefunc_data st1) w (torch st1);
          st2 = st1\<lparr>torch := snd mc\<rparr>;
          st3 = st2\<lparr>odefunc_data := TrainData\<rparr>;
          valid_loss = loss_item ops (fst mc) w;
          total = fadd valid_total_loss valid_loss
      in ((st3, total),
          [(SetData ValidData epoch i, odefunc_data st), (ValidForward epoch i, odefunc_data st1),
           (SetData TrainData epoch i, odefunc_data st2)]))"

fun valid_windows ::
  "('m, 'w, 'p) torch_ops \<Rightarrow> nat \<Rightarrow> nat \<Rightarrow> 'w list \<Rightarrow> 'm trainer \<times> pyfloat \<Rightarrow> ('m trainer \<times> pyfloat) \<times> trace" where
  "valid_windows ops epoch i [] s = (s, [])"
| "valid_windows ops epoch i (w # ws) s =
     (let r1 = valid_window ops epoch i w s;
          r2 = valid_windows ops epoch (Suc i) ws (fst r1)
      in (fst r2, snd r1 @ snd r2))"

text \<open>
  The training half of an epoch, lines 146 to 173: the total starts at \<open>0.0\<close>, every
  window adds its loss, and the average divides by \<open>train_data.num_windows\<close>.
\<close>

definition train_phase ::
  "('m, 'w, 'p) torch_ops \<Rightarrow> 'w Data \<Rightarrow> nat \<Rightarrow> 'm trainer \<Rightarrow> error + ('m trainer \<times> pyfloat \<times> trace)" where
  "train_phase ops train_data epoch st =
     (let r = train_windows ops epoch 0 (windows train_data) (st, Fin 0)
      in case fdiv_count (snd (fst r)) (num_windows train_data) of
           Inl e \<Rightarrow> Inl e
         | Inr train_avg_loss \<Rightarrow>
             Inr ((fst (fst r))\<lparr>all_train_avg_loss := all_train_avg_loss (fst (fst r)) @ [train_avg_loss]\<rparr>,
                  train_avg_loss, snd r))"

text \<open>The validation half, lines 177 to 207.\<close>

definition valid_phase ::
  "('m, 'w, 'p) torch_ops \<Rightarrow> 'w Data \<Rightarrow> nat \<Rightarrow> 'm trainer \<Rightarrow> error + ('m trainer \<times> pyfloat \<times> trace)" where
  "valid_phase ops valid_data epoch st =
     (let r = valid_windows ops epoch 0 (windows valid_data) (st, Fin 0)
      in case fdiv_count (snd (fst r)) (num_windows valid_data) of
           Inl e \<Rightarrow> Inl e
         | Inr valid_avg_loss \<Rightarrow>
             Inr ((fst (fst r))\<lparr>all_valid_avg_loss := all_valid_avg_loss (fst (fst r)) @ [valid_avg_loss]\<rparr>,
                  valid_avg_loss, snd r))"

text \<open>One epoch: both halves and the checkpoint decision of lines 210 to 213.\<close>

definition run_epoch ::
  "('m, 'w, 'p) torch_ops \<Rightarrow> 'w Data \<Rightarrow> 'w Data \<Rightarrow> nat \<Rightarrow> 'm trainer \<Rightarrow> error + ('m trainer \<times> trace)" where
  "run_epoch ops train_data valid_data epoch st =
     (case train_phase ops train_data epoch st of
        Inl e \<Rightarrow> Inl e
      | Inr (st1, train_avg_loss, t1) \<Rightarrow>
          (case valid_phase ops valid_data epoch st1 of
             Inl e \<Rightarrow> Inl e
           | Inr (st2, valid_avg_loss, t2) \<Rightarrow>
               Inr (st2\<lparr>ckpt := checkpoint_step (ckpt st2) epoch valid_avg_loss\<rparr>,
                    t1 @ t2 @
                    (if should_save (lowest_valid_avg_loss (ckpt st2)) valid_avg_loss
                     then [(Save epoch, odefunc_data st2)] else []))))"

fun epoch_loop ::
  "('m, 'w, 'p) torch_ops \<Rightarrow> 'w Data \<Rightarrow> 'w Data \<Rightarrow> nat list \<Rightarrow> 'm trainer \<Rightarrow> error + ('m trainer \<times> trace)" where
  "epoch_loop ops train_data valid_data [] st = Inr (st, [])"
| "epoch_loop ops train_data valid_data (epoch # epochs) st =
     (case run_epoch ops train_data valid_data epoch st of
        Inl e \<Rightarrow> Inl e
      | Inr (st1, t1) \<Rightarrow>
          (case epoch_loop ops train_data valid_data epochs st1 of
             Inl e \<Rightarrow> Inl e
           | Inr (st2, t2) \<Rightarrow> Inr (st2, t1 @ t2)))"

text \<open>
  \<open>train\<close> from the construction of the model on: \<open>Model(data=train_data, ...)\<close> hands
  the training Dataset to the vector field, and no checkpoint has been written.
\<close>

definition initial_trainer :: "'m \<Rightarrow> 'm trainer" where
  "initial_trainer m0 =
     \<lparr>torch = m0, odefunc_data = TrainData,
      ckpt = \<lparr>lowest_valid_avg_loss = None, saved_epochs = []\<rparr>,
      all_train_avg_loss = [], all_valid_avg_loss = []\<rparr>"

definition train ::
  "('m, 'w, 'p) torch_ops \<Rightarrow> 'w Data \<Rightarrow> 'w Data \<Rightarrow> nat \<Rightarrow> 'm \<Rightarrow> error + ('m trainer \<times> trace)" where
  "train ops train_data valid_data num_epochs m0 =
     epoch_loop ops train_data valid_data [0..<num_epochs] (initial_trainer m0)"


text \<open>
  Torch operations for replaying given losses: the opaque state is the number of
  optimizer steps taken so far, a window is the list of the losses it yields (a training
  window the first of the list, a validation window the one indexed by the steps taken),
  and a prediction is the loss it will yield.
\<close>

definition replay_ops :: "(nat, pyfloat list, pyfloat) torch_ops" where
  "replay_ops =
     \<lparr>zero_grad = (\<lambda>m. m),
      model_call = (\<lambda>ph d w m. (case ph of Training \<Rightarrow> hd w | Validation \<Rightarrow> w ! (m - 1), m)),
      loss_item = (\<lambda>p w. p),
      backward = (\<lambda>m. m),
      optimizer_step = Suc\<rparr>"


section \<open>Hyperparameters and the job identifier (train.py)\<close>

text \<open>
  The fields \<open>get_hyperparameters\<close> fills in. The integer fields are Python integers as
  \<open>argparse\<close> parses them, the others Python floats.
\<close>

record Hyperparameters =
  region :: string
  solver :: string
  lr :: pyfloat
  dropout_rate :: pyfloat
  input_dims :: int
  output_dims :: int
  encoder_fc_dims :: "int list"
  hidden_dims :: int
  odefunc_fc_dims :: "int list"
  decoder_fc_dims :: "int list"
  std :: pyfloat
  window_length :: int
  num_epochs :: int
  rtol :: pyfloat
  atol :: pyfloat

text \<open>\<open>str\<close> of a Python integer: decimal digits, with a minus sign when negative.\<close>

definition digit_char :: "nat \<Rightarrow> char" where
  "digit_char d = ''0123456789'' ! d"

fun str_nat :: "nat \<Rightarrow> string" where
  "str_nat n = (if n < 10 then [digit_char n] else str_nat (n div 10) @ [digit_char (n mod 10)])"

definition str_int :: "int \<Rightarrow> string" where
  "str_int i = (if i < 0 then CHR ''-'' # str_nat (nat (- i)) else str_nat (nat i))"

text \<open>\<open>str\<close> of a list of integers: the items joined by a comma and a space, in brackets.\<close>

fun join_items :: "string list \<Rightarrow> string" where
  "join_items [] = []"
| "join_items [x] = x"
| "join_items (x # y # ys) = x @ '', '' @ join_items (y # ys)"

definition str_int_list :: "int list \<Rightarrow> string" where
  "str_int_list xs = ''['' @ join_items (map str_int xs) @ '']''"

text \<open>
  The f-string of \<open>get_job_id\<close>. How Python prints a float is not modelled: \<open>fmt_1e\<close> is
  the format \<open>.1e\<close> used for the learning rate and \<open>fmt_str\<close> the default conversion
  used for the tolerances.
\<close>

definition get_job_id :: "(pyfloat \<Rightarrow> string) \<Rightarrow> (pyfloat \<Rightarrow> string) \<Rightarrow> Hyperparameters \<Rightarrow> string" where
  "get_job_id fmt_1e fmt_str hyperparams =
     region hyperparams
     @ ''_'' @ solver hyperparams
     @ ''_lr'' @ fmt_1e (lr hyperparams)
     @ ''_enc'' @ str_int_list (encoder_fc_dims hyperparams)
     @ ''_hidden'' @ str_int (hidden_dims hyperparams)
     @ ''_ode'' @ str_int_list (odefunc_fc_dims hyperparams)
     @ ''_dec'' @ str_int_list (decoder_fc_dims hyperparams)
     @ ''_window'' @ str_int (window_length hyperparams)
     @ ''_epochs'' @ str_int (num_epochs hyperparams)
     @ ''_rtol'' @ fmt_str (rtol hyperparams)
     @ ''_atol'' @ fmt_str (atol hyperparams)"

text \<open>
  The hyperparameters that \<open>parse_args\<close> and \<open>get_hyperparameters\<close> produce when no
  argument is given, and two tables of how Python prints the three floats among them; the
  tables answer \<open>nan\<close> for every other value.
\<close>

definition default_hyperparameters :: Hyperparameters where
  "default_hyperparameters =
     \<lparr>region = ''cr'', solver = ''euler'', lr = Fin (3 / 10000), dropout_rate = Fin (1 / 2),
      input_dims = 4, output_dims = 1, encoder_fc_dims = [8, 16, 8], hidden_dims = 4,
      odefunc_fc_dims = [64, 64], decoder_fc_dims = [8, 16, 8], std = Fin (1 / 10),
      window_length = 128, num_epochs = 1, rtol = Fin (1 / 10000), atol = Fin (1 / 1000000)\<rparr>"

definition default_fmt_1e :: "pyfloat \<Rightarrow> string" where
  "default_fmt_1e x = (if x = Fin (3 / 10000) then ''3.0e-04'' else ''nan'')"

definition default_fmt_str :: "pyfloat \<Rightarrow> string" where
  "default_fmt_str x =
     (if x = Fin (1 / 10000) then ''0.0001'' else if x = Fin (1 / 1000000) then ''1e-06'' else ''nan'')"

section \<open>Model: construction and forward pass (mr\_node/model/model.py)\<close>

text \<open>
  Tensors are lists of rows of reals; the batch axis, of size one throughout, is left out.
  A window of \<open>W\<close> rows and \<open>F\<close> features is a list of \<open>W\<close> lists of length \<open>F\<close>.
\<close>

type_synonym vec = "real list"

text \<open>
  Modelled from the spec: the Decoder (mr\_node/model/decoder.py is not among the
  sources), "a feed-forward network mapping each latent state (one per integrated timestep,
  stacked as \<open>[num_times, hidden_dims]\<close>) independently to an output vector of dimension
  \<open>output_dims\<close>", with "configurable hidden widths". A layer is a weight matrix of
  \<open>out_features\<close> rows and \<open>in_features\<close> columns and a bias; applying it to a vector of
  another length is the shape error PyTorch raises. The parameter values come from
  \<open>theta\<close> (layer, row, column; column \<open>in_features\<close> is the bias), the activation between
  layers is \<open>act\<close>.
\<close>

record Linear =
  in_features :: nat
  out_features :: nat
  weight :: "real list list"
  bias :: "real list"

definition new_linear :: "(nat \<Rightarrow> nat \<Rightarrow> real) \<Rightarrow> nat \<Rightarrow> nat \<Rightarrow> Linear" where
  "new_linear th n_in n_out =
     \<lparr>in_features = n_in, out_features = n_out,
      weight = map (\<lambda>r. map (th r) [0..<n_in]) [0..<n_out],
      bias = map (\<lambda>r. th r n_in) [0..<n_out]\<rparr>"

definition dot :: "vec \<Rightarrow> vec \<Rightarrow> real" where
  "dot a b = sum_list (map2 (*) a b)"

definition linear_forward :: "Linear \<Rightarrow> vec \<Rightarrow> error + vec" where
  "linear_forward l x =
     (if length x \<noteq> in_features l then Inl ShapeError
      else Inr (map2 (\<lambda>row b. dot row x + b) (weight l) (bias l)))"

fun make_layers :: "(nat \<Rightarrow> nat \<Rightarrow> nat \<Rightarrow> real) \<Rightarrow> nat \<Rightarrow> nat list \<Rightarrow> Linear list" where
  "make_layers theta k (a # b # dims) = new_linear (theta k) a b # make_layers theta (Suc k) (b # dims)"
| "make_layers theta k dims = []"

record Decoder =
  layers :: "Linear list"
  activation :: "real \<Rightarrow> real"

definition Decoder_init :: "(nat \<Rightarrow> nat \<Rightarrow> nat \<Rightarrow> real) \<Rightarrow> (real \<Rightarrow> real) \<Rightarrow> nat \<Rightarrow> nat list \<Rightarrow> nat \<Rightarrow> Decoder" where
  "Decoder_init theta act input_dim fc_dims output_dim =
     \<lparr>layers = make_layers theta 0 (input_dim # fc_dims @ [output_dim]), activation = act\<rparr>"

fun mlp_forward :: "(real \<Rightarrow> real) \<Rightarrow> Linear list \<Rightarrow> vec \<Rightarrow> error + vec" where
  "mlp_forward act [] x = Inr x"
| "mlp_forward act [l] x = linear_forward l x"
| "mlp_forward act (l # ls) x =
     (case linear_forward l x of Inl e \<Rightarrow> Inl e | Inr y \<Rightarrow> mlp_forward act ls (map act y))"

fun Decoder_forward :: "Decoder \<Rightarrow> vec list \<Rightarrow> error + vec list" where
  "Decoder_forward dec [] = Inr []"
| "Decoder_forward dec (h # hs) =
     (case mlp_forward (activation dec) (layers dec) h of
        Inl e \<Rightarrow> Inl e
      | Inr y \<Rightarrow> (case Decoder_forward dec hs of Inl e \<Rightarrow> Inl e | Inr ys \<Rightarrow> Inr (y # ys)))"

text \<open>
  The vector field as the Model sees it: the attributes \<open>data\<close> and \<open>start_time\<close>, which
  the scripts assign, and its forward function of the two, the time and the state. The
  Encoder is its forward function from the reversed window and the initial hidden state to
  the final hidden state; it may raise.
\<close>

record 'd ODEFunc =
  data :: 'd
  start_time :: real
  field :: "'d \<Rightarrow> real \<Rightarrow> real \<Rightarrow> vec \<Rightarrow> vec"

record 'd Model =
  hyperparams :: Hyperparameters
  encoder :: "vec list \<Rightarrow> vec \<Rightarrow> error + vec"
  odefunc :: "'d ODEFunc"
  decoder :: Decoder


text \<open>
  \<open>torchdiffeq.odeint(func, y0, t, rtol, atol, method)\<close> is a parameter of the forward
  pass: it returns the times at which it evaluated \<open>func\<close> and the states it computed, or
  raises.
\<close>

type_synonym integrator =
  "(real \<Rightarrow> vec \<Rightarrow> vec) \<Rightarrow> vec \<Rightarrow> real list \<Rightarrow> pyfloat \<Rightarrow> pyfloat \<Rightarrow> string \<Rightarrow> error + (real list \<times> vec list)"

text \<open>
  What one forward call did: the prediction it returns, the model with the
  \<open>start_time\<close> it assigned, the random generator after the call, and the arguments
  and evaluation times of the calls it made.
\<close>

record 'd forward_run =
  prediction :: "vec list"
  model_after :: "'d Model"
  rng_after :: "real stream"
  encoder_input :: "vec list"
  h_init :: vec
  ode_times :: "real list"
  ode_queries :: "real list"

text \<open>
  \<open>torch.cat(..., dim=2)\<close> joins the rows of two windows feature by feature and needs
  as many rows in one as in the other.
\<close>

definition cat_features :: "vec list \<Rightarrow> vec list \<Rightarrow> error + vec list" where
  "cat_features a b = (if length a \<noteq> length b then Inl ShapeError else Inr (map2 (@) a b))"

text \<open>
  \<open>Model.forward\<close>. \<open>torch.randn\<close> takes the next \<open>hidden_dims\<close> samples of the
  generator \<open>rng\<close> and refuses a negative size. \<open>time_window\<close> is the list of the
  entries of the time tensor: \<open>squeeze()\<close> turns a tensor of one entry into a scalar
  tensor, which cannot be indexed, and an empty one has no entry \<open>0\<close>.
\<close>

definition forward ::
  "integrator \<Rightarrow> 'd Model \<Rightarrow> real stream \<Rightarrow> vec list \<Rightarrow> vec list \<Rightarrow> real list \<Rightarrow> error + 'd forward_run" where
  "forward odeint self rng weather_window infect_window time_window =
     (case cat_features weather_window infect_window of
        Inl e \<Rightarrow> Inl e
      | Inr data_window \<Rightarrow>
          if hidden_dims (hyperparams self) < 0 then Inl ShapeError else
          let reversed_data_window = rev data_window;
              n = nat (hidden_dims (hyperparams self));
              h0 = stake n rng;
              rng1 = sdrop n rng
          in (case encoder self reversed_data_window h0 of
                Inl e \<Rightarrow> Inl e
              | Inr h \<Rightarrow>
                  (case time_window of
                     [] \<Rightarrow> Inl IndexError
                   | [t] \<Rightarrow> Inl IndexError
                   | t0 # t1 # ts \<Rightarrow>
                       let ode = (odefunc self)\<lparr>start_time := t0\<rparr>;
                           self1 = self\<lparr>odefunc := ode\<rparr>;
                           shifted = map (\<lambda>t. t - t0) time_window
                       in (case odeint (field ode (data ode) (start_time ode)) h shifted
                                  (rtol (hyperparams self)) (atol (hyperparams self))
                                  (solver (hyperparams self)) of
                             Inl e \<Rightarrow> Inl e
                           | Inr (queries, hs) \<Rightarrow>
                               (case Decoder_forward (decoder self1) hs of
                                  Inl e \<Rightarrow> Inl e
                                | Inr out \<Rightarrow>
                                    Inr \<lparr>prediction = out, model_after = self1, rng_after = rng1,
                                         encoder_input = reversed_data_window, h_init = h0,
                                         ode_times = shifted, ode_queries = queries\<rparr>)))))"

text \<open>
  An integrator to run the forward pass with: explicit Euler steps on the requested
  times, the method the training script selects by default. It evaluates the vector field
  at every requested time but the last, and it refuses times that are not strictly
  increasing.
\<close>

fun euler_states :: "(real \<Rightarrow> vec \<Rightarrow> vec) \<Rightarrow> vec \<Rightarrow> real list \<Rightarrow> vec list" where
  "euler_states f y [] = []"
| "euler_states f y [t] = [y]"
| "euler_states f y (t0 # t1 # ts) =
     y # euler_states f (map2 (\<lambda>a b. a + (t1 - t0) * b) y (f t0 y)) (t1 # ts)"

definition euler_odeint :: integrator where
  "euler_odeint f y0 ts r_tol a_tol method =
     (if sorted_wrt (<) ts then Inr (butlast ts, euler_states f y0 ts) else Inl ValueError)"

text \<open>
  An integrator that also evaluates the vector field past the last requested time, as a
  method with a step size of its own does when a trial step ends beyond that time. It
  returns the same states.
\<close>

definition overshoot_odeint :: integrator where
  "overshoot_odeint f y0 ts r_tol a_tol method =
     (if sorted_wrt (<) ts then Inr (butlast ts @ [last ts + 1], euler_states f y0 ts)
      else Inl ValueError)"

section \<open>The Normal negative log-likelihood (train.py, test\_in.py)\<close>

text \<open>
  Tensor values are reals here. An elementwise operation on two squeezed tensors
  broadcasts a tensor of one entry against the other and refuses any other mismatch of
  lengths. The mean of an empty tensor is NaN.
\<close>

definition broadcast2 :: "(real \<Rightarrow> real \<Rightarrow> real) \<Rightarrow> vec \<Rightarrow> vec \<Rightarrow> error + vec" where
  "broadcast2 f a b =
     (if length a = length b then Inr (map2 f a b)
      else if length a = 1 then Inr (map (f (hd a)) b)
      else if length b = 1 then Inr (map (\<lambda>x. f x (hd b)) a)
      else Inl ShapeError)"

definition tensor_mean :: "vec \<Rightarrow> pyfloat" where
  "tensor_mean xs = (if xs = [] then NaN else Fin (sum_list xs / real (length xs)))"

fun fneg :: "pyfloat \<Rightarrow> pyfloat" where
  "fneg (Fin x) = Fin (- x)"
| "fneg PInf = NInf"
| "fneg NInf = PInf"
| "fneg NaN = NaN"

text \<open>
  \<open>Normal(loc, scale).log_prob(value)\<close> as \<open>torch.distributions\<close> computes it for a
  scale that is a Python number.
\<close>

definition normal_log_prob :: "real \<Rightarrow> real \<Rightarrow> real \<Rightarrow> real" where
  "normal_log_prob scale loc val =
     - ((val - loc)\<^sup>2) / (2 * scale\<^sup>2) - ln scale - ln (sqrt (2 * pi))"

text \<open>
  Lines 157 to 161 of train.py, and 149 to 152 of test\_in.py: the loss of a window from
  the prediction and the target, both squeezed. A scale that is not positive is refused.
\<close>

definition nll_loss :: "real \<Rightarrow> vec \<Rightarrow> vec \<Rightarrow> error + pyfloat" where
  "nll_loss scale infect_mu infect_window =
     (if scale \<le> 0 then Inl ValueError
      else case broadcast2 (normal_log_prob scale) infect_mu infect_window of
             Inl e \<Rightarrow> Inl e
           | Inr lp \<Rightarrow> Inr (fneg (tensor_mean lp)))"

text \<open>
  The density of the Normal distribution with mean \<open>mu\<close> and standard deviation
  \<open>sigma\<close>, and the negative mean log-probability of targets under Normal distributions
  centred at the predictions, as the specification words the loss.
\<close>

definition spec_normal_density :: "real \<Rightarrow> real \<Rightarrow> real \<Rightarrow> real" where
  "spec_normal_density sigma mu x = exp (- ((x - mu)\<^sup>2) / (2 * sigma\<^sup>2)) / (sigma * sqrt (2 * pi))"

definition spec_neg_mean_log_prob :: "real \<Rightarrow> vec \<Rightarrow> vec \<Rightarrow> real" where
  "spec_neg_mean_log_prob sigma mus xs =
     - (\<Sum>i<length xs. ln (spec_normal_density sigma (mus ! i) (xs ! i))) / real (length xs)"

section \<open>Trainer: the loss lines of the loop (train.py)\<close>

text \<open>
  A window as \<open>windows()\<close> yields it: the time window, the covariate window and the
  target window. \<open>squeeze()\<close> of a tensor whose rows have one entry each is the list
  of those entries.
\<close>

type_synonym window = "real list \<times> vec list \<times> vec list"

definition squeeze :: "vec list \<Rightarrow> vec" where
  "squeeze x = concat x"

text \<open>
  The torch operations of train.py: the gradient reset \<open>zg\<close>, the model call
  \<open>fw\<close>, the backward pass \<open>bw\<close> and the optimizer step \<open>os\<close> stay opaque, and
  the loss is the one lines 157 to 161 compute from the prediction and the target of the
  window with the scale \<open>hyperparams.std\<close>. Where those lines raise, the script ends;
  the loop above takes its calls to return, and NaN stands for that case here.
\<close>

definition script_ops ::
  "real \<Rightarrow> ('m \<Rightarrow> 'm) \<Rightarrow> (phase \<Rightarrow> dataset \<Rightarrow> window \<Rightarrow> 'm \<Rightarrow> vec list \<times> 'm) \<Rightarrow>
   ('m \<Rightarrow> 'm) \<Rightarrow> ('m \<Rightarrow> 'm) \<Rightarrow> ('m, window, vec list) torch_ops" where
  "script_ops sd zg fw bw os =
     \<lparr>zero_grad = zg,
      model_call = fw,
      loss_item = (\<lambda>infect_mu (time_window, weather_window, infect_window).
                     case nll_loss sd (squeeze infect_mu) (squeeze infect_window) of
                       Inr l \<Rightarrow> l | Inl e \<Rightarrow> NaN),
      backward = bw,
      optimizer_step = os\<rparr>"

text \<open>
  The same operations with a log for the opaque state: every call appends its name to
  the log, the model call also the pass it belongs to and the Dataset it is handed. The
  prediction is given by \<open>predict\<close>.
\<close>

datatype call = ZeroGradCall | ForwardCall phase dataset | BackwardCall | StepCall

definition call_log_ops ::
  "real \<Rightarrow> (phase \<Rightarrow> dataset \<Rightarrow> window \<Rightarrow> vec list) \<Rightarrow> (call list, window, vec list) torch_ops" where
  "call_log_ops sd predict =
     script_ops sd (\<lambda>m. m @ [ZeroGradCall])
       (\<lambda>ph d w m. (predict ph d w, m @ [ForwardCall ph d]))
       (\<lambda>m. m @ [BackwardCall]) (\<lambda>m. m @ [StepCall])"

section \<open>Evaluator: the losses of one window (test\_in.py)\<close>

text \<open>
  Lines 137 to 152 for one window: \<open>infect_hat\<close> is the prediction of the model and
  \<open>gt_infect_window\<close> the target of the window, each a list of scalars.
\<close>

record window_report =
  pred_infect :: vec
  gt_infect :: vec
  mse_loss :: pyfloat
  mle_loss :: pyfloat

definition test_window :: "'w Data \<Rightarrow> 'v Data \<Rightarrow> vec \<Rightarrow> vec \<Rightarrow> error + window_report" where
  "test_window train_data test_data infect_hat gt_infect_window =
     (let pred = map (\<lambda>x. x * infect_stds train_data + infect_means train_data) infect_hat;
          gt = map (\<lambda>x. x * infect_stds test_data + infect_means test_data) gt_infect_window
      in case broadcast2 (\<lambda>a b. (a - b)\<^sup>2) pred gt of
           Inl e \<Rightarrow> Inl e
         | Inr sq \<Rightarrow>
             (case nll_loss (1 / 10) pred gt of
                Inl e \<Rightarrow> Inl e
              | Inr mle \<Rightarrow>
                  Inr \<lparr>pred_infect = pred, gt_infect = gt, mse_loss = tensor_mean sq, mle_loss = mle\<rparr>))"

text \<open>
  What the specification asks of the ground truth: denormalized with the statistics of the
  training Dataset.
\<close>

definition spec_gt_infect :: "'w Data \<Rightarrow> vec \<Rightarrow> vec" where
  "spec_gt_infect train_data gt_infect_window =
     map (\<lambda>x. x * infect_stds train_data + infect_means train_data) gt_infect_window"

section \<open>Concrete inputs\<close>

text \<open>
  A run of five epochs: one training window of loss 1, and one validation window whose loss
  in the successive epochs is 0.5, 0.6, 0.4, 0.4, 0.3.
\<close>

definition demo_train_data :: "pyfloat list Data" where
  "demo_train_data = \<lparr>windows = [[Fin 1]], num_windows = 1, infect_means = 0, infect_stds = 1\<rparr>"

definition demo_valid_data :: "pyfloat list Data" where
  "demo_valid_data =
     \<lparr>windows = [[Fin (1 / 2), Fin (3 / 5), Fin (2 / 5), Fin (2 / 5), Fin (3 / 10)]],
      num_windows = 1, infect_means = 0, infect_stds = 1\<rparr>"

text \<open>A validation window whose loss in the successive epochs is 0.5, NaN, 0.4.\<close>

definition demo_nan_valid_data :: "pyfloat list Data" where
  "demo_nan_valid_data =
     \<lparr>windows = [[Fin (1 / 2), NaN, Fin (2 / 5)]], num_windows = 1, infect_means = 0, infect_stds = 1\<rparr>"

text \<open>
  A Dataset of two equal windows of two time steps, and a model that predicts 0 at both
  steps.
\<close>

definition demo_window :: window where
  "demo_window = ([0, 1], [[1, 2, 3], [4, 5, 6]], [[0], [1]])"

definition demo_window_data :: "window Data" where
  "demo_window_data = \<lparr>windows = [demo_window, demo_window], num_windows = 2, infect_means = 0, infect_stds = 1\<rparr>"

definition demo_predict :: "phase \<Rightarrow> dataset \<Rightarrow> window \<Rightarrow> vec list" where
  "demo_predict ph d w = [[0], [0]]"

text \<open>The float64 nearest to 0.1, which is what the literal \<open>0.1\<close> denotes.\<close>

definition demo_drop_rate :: real where
  "demo_drop_rate = 3602879701896397 / 36028797018963968"

section \<open>Predicates on traces\<close>



text \<open>The optimizer steps of a trace, in order, each with its epoch and window index.\<close>

fun optimizer_steps :: "trace \<Rightarrow> (nat \<times> nat) list" where
  "optimizer_steps [] = []"
| "optimizer_steps ((OptimizerStep e i, d) # tr) = (e, i) # optimizer_steps tr"
| "optimizer_steps (x # tr) = optimizer_steps tr"

text \<open>
  In a guarded trace every optimizer step ends the block of its own window: gradient
  reset, forward pass, loss, backward pass, step.
\<close>

definition step_guarded :: "trace \<Rightarrow> bool" where
  "step_guarded tr \<longleftrightarrow> (\<forall>e i d. (OptimizerStep e i, d) \<in> set tr \<longrightarrow>
     (\<exists>pre post l. tr = pre @ [(ZeroGrad e i, d), (TrainForward e i, d), (PrintLoss e i l, d),
                                (Backward e i, d), (OptimizerStep e i, d)] @ post))"


text \<open>
  A small model to run the forward pass on: two hidden dimensions, a Decoder of widths 2, 3
  and 1 whose parameters are all 1 and whose activation is the identity, an Encoder that
  returns its initial state, and the vector field \<open>dh/dt = h\<close>. The generator yields 1,
  2, 3, and so on.
\<close>

definition demo_hyperparameters :: Hyperparameters where
  "demo_hyperparameters = default_hyperparameters\<lparr>hidden_dims := 2, decoder_fc_dims := [3]\<rparr>"

definition demo_encoder :: "vec list \<Rightarrow> vec \<Rightarrow> error + vec" where
  "demo_encoder x h0 = Inr h0"

definition demo_field :: "dataset \<Rightarrow> real \<Rightarrow> real \<Rightarrow> vec \<Rightarrow> vec" where
  "demo_field d s t h = h"

definition demo_theta :: "nat \<Rightarrow> nat \<Rightarrow> nat \<Rightarrow> real" where
  "demo_theta k r c = 1"

definition demo_act :: "real \<Rightarrow> real" where
  "demo_act x = x"

definition demo_model :: "dataset Model" where
  "demo_model =
     \<lparr>hyperparams = demo_hyperparameters, encoder = demo_encoder,
      odefunc = \<lparr>data = TrainData, start_time = 0, field = demo_field\<rparr>,
      decoder = Decoder_init demo_theta demo_act 2 [3] 1\<rparr>"

definition demo_rng :: "real stream" where
  "demo_rng = siterate (\<lambda>x. x + 1) 1"

definition demo_weather :: "vec list" where
  "demo_weather = [[1, 2, 3], [4, 5, 6]]"

definition demo_infect :: "vec list" where
  "demo_infect = [[7], [8]]"

definition demo_times :: "real list" where
  "demo_times = [10, 11, 13]"

text \<open>
  A test Dataset whose statistics differ from those of the training Dataset above: mean 10
  and standard deviation 2 against mean 0 and standard deviation 1.
\<close>

definition demo_test_data :: "pyfloat list Data" where
  "demo_test_data = \<lparr>windows = [], num_windows = 0, infect_means = 10, infect_stds = 2\<rparr>"

text \<open>
  The nine parts of a job identifier that follow the region and the solver, without the
  underscores that introduce them.
\<close>

definition job_fields :: "(pyfloat \<Rightarrow> string) \<Rightarrow> (pyfloat \<Rightarrow> string) \<Rightarrow> Hyperparameters \<Rightarrow> string list" where
  "job_fields fmt_1e fmt_str hp =
     [''lr'' @ fmt_1e (lr hp),
      ''enc'' @ str_int_list (encoder_fc_dims hp),
      ''hidden'' @ str_int (hidden_dims hp),
      ''ode'' @ str_int_list (odefunc_fc_dims hp),
      ''dec'' @ str_int_list (decoder_fc_dims hp),
      ''window'' @ str_int (window_length hp),
      ''epochs'' @ str_int (num_epochs hp),
      ''rtol'' @ fmt_str (rtol hp),
      ''atol'' @ fmt_str (atol hp)]"

section \<open>Properties: the float comparisons\<close>

lemma fless_trans: "fless a b \<Longrightarrow> fless b c \<Longrightarrow> fless a c"
  by (cases a; cases b; cases c) auto

lemma fless_min:
  "\<not> is_nan x \<Longrightarrow> \<not> is_nan v \<Longrightarrow> \<not> is_nan l \<Longrightarrow>
   fless x (if fless v l then v else l) \<longleftrightarrow> fless x l \<and> fless x v"
  by (cases x; cases v; cases l) auto

section \<open>Properties: what the loops of the Trainer leave alone\<close>

lemma train_window_keeps:
  "odefunc_data (fst (fst (train_window ops e i w s))) = odefunc_data (fst s)"
  "ckpt (fst (fst (train_window ops e i w s))) = ckpt (fst s)"
  "all_train_avg_loss (fst (fst (train_window ops e i w s))) = all_train_avg_loss (fst s)"
  "all_valid_avg_loss (fst (fst (train_window ops e i w s))) = all_valid_avg_loss (fst s)"
  by (simp_all add: train_window_def Let_def)

lemma train_windows_keeps:
  "odefunc_data (fst (fst (train_windows ops e i ws s))) = odefunc_data (fst s)
   \<and> ckpt (fst (fst (train_windows ops e i ws s))) = ckpt (fst s)
   \<and> all_train_avg_loss (fst (fst (train_windows ops e i ws s))) = all_train_avg_loss (fst s)
   \<and> all_valid_avg_loss (fst (fst (train_windows ops e i ws s))) = all_valid_avg_loss (fst s)"
  by (induction ws arbitrary: i s) (simp_all add: Let_def train_window_keeps)

lemma valid_window_keeps:
  "odefunc_data (fst (fst (valid_window ops e i w s))) = TrainData"
  "ckpt (fst (fst (valid_window ops e i w s))) = ckpt (fst s)"
  "all_train_avg_loss (fst (fst (valid_window ops e i w s))) = all_train_avg_loss (fst s)"
  "all_valid_avg_loss (fst (fst (valid_window ops e i w s))) = all_valid_avg_loss (fst s)"
  by (simp_all add: valid_window_def Let_def)

lemma valid_windows_keeps:
  "(odefunc_data (fst s) = TrainData \<longrightarrow> odefunc_data (fst (fst (valid_windows ops e i ws s))) = TrainData)
   \<and> ckpt (fst (fst (valid_windows ops e i ws s))) = ckpt (fst s)
   \<and> all_train_avg_loss (fst (fst (valid_windows ops e i ws s))) = all_train_avg_loss (fst s)
   \<and> all_valid_avg_loss (fst (fst (valid_windows ops e i ws s))) = all_valid_avg_loss (fst s)"
  by (induction ws arbitrary: i s) (simp_all add: Let_def valid_window_keeps)

lemma train_phase_keeps:
  assumes "train_phase ops td e st = Inr (st1, avg, t1)"
  shows "odefunc_data st1 = odefunc_data st" "ckpt st1 = ckpt st"
        "all_valid_avg_loss st1 = all_valid_avg_loss st"
        "all_train_avg_loss st1 = all_train_avg_loss st @ [avg]"
  using assms train_windows_keeps[of ops e 0 "windows td" "(st, Fin 0)"]
  by (auto simp: train_phase_def Let_def split: sum.splits)

lemma valid_phase_keeps:
  assumes "valid_phase ops vd e st = Inr (st1, avg, t1)"
  shows "odefunc_data st = TrainData \<Longrightarrow> odefunc_data st1 = TrainData" "ckpt st1 = ckpt st"
        "all_valid_avg_loss st1 = all_valid_avg_loss st @ [avg]"
        "all_train_avg_loss st1 = all_train_avg_loss st"
  using assms valid_windows_keeps[of "(st, Fin 0)" ops e 0 "windows vd"]
  by (auto simp: valid_phase_def Let_def split: sum.splits)

lemma run_epoch_state:
  assumes "run_epoch ops td vd e st = Inr (st', tr)"
  shows "\<exists>v t. all_valid_avg_loss st' = all_valid_avg_loss st @ [v]
           \<and> all_train_avg_loss st' = all_train_avg_loss st @ [t]
           \<and> ckpt st' = checkpoint_step (ckpt st) e v
           \<and> (odefunc_data st = TrainData \<longrightarrow> odefunc_data st' = TrainData)"
proof -
  from assms obtain st1 a1 t1 st2 a2 t2 where
    p1: "train_phase ops td e st = Inr (st1, a1, t1)" and
    p2: "valid_phase ops vd e st1 = Inr (st2, a2, t2)" and
    st': "st' = st2\<lparr>ckpt := checkpoint_step (ckpt st2) e a2\<rparr>"
    by (auto simp: run_epoch_def split: sum.splits)
  show ?thesis
    using train_phase_keeps[OF p1] valid_phase_keeps[OF p2] st' by auto
qed

section \<open>Properties: the checkpoint policy\<close>

text \<open>
  Started with a best loss \<open>l\<close>, the loop saves at epoch \<open>n\<close> exactly when the loss of
  that epoch is below \<open>l\<close> and below every loss the loop has met before it, as long as no
  NaN is involved.
\<close>

lemma checkpoint_loop_mem:
  "\<forall>v\<in>set vs. \<not> is_nan v \<Longrightarrow> \<not> is_nan l \<Longrightarrow> lowest_valid_avg_loss st = Some l \<Longrightarrow>
   n \<in> set (saved_epochs (checkpoint_loop st k vs)) \<longleftrightarrow>
     n \<in> set (saved_epochs st) \<or>
     (k \<le> n \<and> n - k < length vs \<and> fless (vs ! (n - k)) l \<and> (\<forall>j<n - k. fless (vs ! (n - k)) (vs ! j)))"
proof (induction vs arbitrary: st k l)
  case Nil
  then show ?case by simp
next
  case (Cons v vs)
  let ?st = "checkpoint_step st k v"
  let ?l = "if fless v l then v else l"
  have nn: "\<not> is_nan ?l" using Cons.prems by simp
  have low: "lowest_valid_avg_loss ?st = Some ?l"
    using Cons.prems by (simp add: checkpoint_step_def should_save_def)
  have sv: "set (saved_epochs ?st) = set (saved_epochs st) \<union> (if fless v l then {k} else {})"
    using Cons.prems by (simp add: checkpoint_step_def should_save_def)
  have IH: "n \<in> set (saved_epochs (checkpoint_loop ?st (Suc k) vs)) \<longleftrightarrow>
     n \<in> set (saved_epochs ?st) \<or>
     (Suc k \<le> n \<and> n - Suc k < length vs \<and> fless (vs ! (n - Suc k)) ?l
        \<and> (\<forall>j<n - Suc k. fless (vs ! (n - Suc k)) (vs ! j)))"
    using Cons.IH[OF _ nn low] Cons.prems by simp
  show ?case
  proof (cases "n \<le> k")
    case True
    then show ?thesis using IH sv by (cases "n = k") auto
  next
    case False
    then obtain i where n: "n = Suc k + i" by (metis add_Suc less_imp_Suc_add not_le_imp_less)
    show ?thesis
    proof (cases "i < length vs")
      case False
      then show ?thesis using IH sv n by auto
    next
      case True
      have x: "\<not> is_nan (vs ! i)" using True Cons.prems by simp
      have m: "fless (vs ! i) ?l \<longleftrightarrow> fless (vs ! i) l \<and> fless (vs ! i) v"
        using fless_min[OF x] Cons.prems by simp
      have q: "(\<forall>j<Suc i. fless (vs ! i) ((v # vs) ! j)) \<longleftrightarrow>
               fless (vs ! i) v \<and> (\<forall>j<i. fless (vs ! i) (vs ! j))"
        by (auto simp: less_Suc_eq_0_disj)
      have nk: "n - k = Suc i" "n - Suc k = i" using n by auto
      show ?thesis unfolding checkpoint_loop.simps IH sv nk using n True m q by auto
    qed
  qed
qed

lemma checkpoints_iff:
  assumes "\<forall>v\<in>set vs. \<not> is_nan v" "e < length vs"
  shows "e \<in> set (checkpoints vs) \<longleftrightarrow> (\<forall>e'<e. fless (vs ! e) (vs ! e'))"
proof (cases vs)
  case Nil
  then show ?thesis using assms by simp
next
  case (Cons v rest)
  let ?st = "\<lparr>lowest_valid_avg_loss = Some v, saved_epochs = [0]\<rparr>"
  have c: "checkpoints vs = saved_epochs (checkpoint_loop ?st 1 rest)"
    by (simp add: checkpoints_def Cons checkpoint_step_def should_save_def)
  have nv: "\<not> is_nan v" and nr: "\<forall>v\<in>set rest. \<not> is_nan v" using assms Cons by auto
  have m: "e \<in> set (saved_epochs (checkpoint_loop ?st 1 rest)) \<longleftrightarrow>
     e \<in> set (saved_epochs ?st) \<or>
     (1 \<le> e \<and> e - 1 < length rest \<and> fless (rest ! (e - 1)) v \<and> (\<forall>j<e - 1. fless (rest ! (e - 1)) (rest ! j)))"
    by (rule checkpoint_loop_mem[OF nr nv]) simp
  show ?thesis
  proof (cases e)
    case 0
    then show ?thesis using c m by simp
  next
    case (Suc i)
    have "(\<forall>e'<Suc i. fless (rest ! i) ((v # rest) ! e')) \<longleftrightarrow>
               fless (rest ! i) v \<and> (\<forall>j<i. fless (rest ! i) (rest ! j))"
      by (auto simp: less_Suc_eq_0_disj)
    then show ?thesis using c m Suc Cons assms by auto
  qed
qed

lemma checkpoint_loop_keeps_saved:
  "set (saved_epochs st) \<subseteq> set (saved_epochs (checkpoint_loop st k vs))"
proof (induction vs arbitrary: st k)
  case Nil
  then show ?case by simp
next
  case (Cons v vs)
  have "set (saved_epochs st) \<subseteq> set (saved_epochs (checkpoint_step st k v))"
    by (auto simp: checkpoint_step_def)
  then show ?case using Cons.IH[of "checkpoint_step st k v" "Suc k"] by auto
qed

lemma checkpoints_first: "vs \<noteq> [] \<Longrightarrow> 0 \<in> set (checkpoints vs)"
proof (cases vs)
  case Nil
  assume "vs \<noteq> []"
  with Nil show ?thesis by simp
next
  case (Cons v rest)
  have "0 \<in> set (saved_epochs (checkpoint_step \<lparr>lowest_valid_avg_loss = None, saved_epochs = []\<rparr> 0 v))"
    by (simp add: checkpoint_step_def should_save_def)
  then show ?thesis
    using checkpoint_loop_keeps_saved[of "checkpoint_step \<lparr>lowest_valid_avg_loss = None, saved_epochs = []\<rparr> 0 v" 1 rest]
    by (auto simp: checkpoints_def Cons)
qed

text \<open>The epoch loop applies the policy to the average validation losses it appends.\<close>

lemma epoch_loop_ckpt:
  "epoch_loop ops td vd [k..<k + n] st = Inr (st', tr) \<Longrightarrow>
   \<exists>vs. length vs = n \<and> all_valid_avg_loss st' = all_valid_avg_loss st @ vs
        \<and> ckpt st' = checkpoint_loop (ckpt st) k vs"
proof (induction n arbitrary: k st tr)
  case 0
  then show ?case by simp
next
  case (Suc n)
  have u: "[k..<k + Suc n] = k # [Suc k..<Suc k + n]" by (simp add: upt_conv_Cons)
  from Suc.prems obtain st1 t1 t2 where
    r: "run_epoch ops td vd k st = Inr (st1, t1)" and
    l: "epoch_loop ops td vd [Suc k..<Suc k + n] st1 = Inr (st', t2)"
    unfolding u by (auto split: sum.splits)
  from run_epoch_state[OF r] obtain v where
    v: "all_valid_avg_loss st1 = all_valid_avg_loss st @ [v]" "ckpt st1 = checkpoint_step (ckpt st) k v"
    by auto
  from Suc.IH[OF l] obtain vs where
    vs: "length vs = n" "all_valid_avg_loss st' = all_valid_avg_loss st1 @ vs"
        "ckpt st' = checkpoint_loop (ckpt st1) (Suc k) vs" by auto
  show ?case
    by (rule exI[of _ "v # vs"]) (simp add: v vs)
qed

lemma train_ckpt:
  assumes "train ops td vd n m0 = Inr (st, tr)"
  shows "length (all_valid_avg_loss st) = n" "saved_epochs (ckpt st) = checkpoints (all_valid_avg_loss st)"
  using epoch_loop_ckpt[of ops td vd 0 n "initial_trainer m0" st tr] assms
  by (auto simp: train_def initial_trainer_def checkpoints_def)

text \<open>
  C3 (as amended). In a run of the Trainer of \<open>n\<close> epochs, the epochs at which the model
  is saved are those the checkpoint policy yields on the average validation losses of the
  run; the first epoch is always among them; and when none of those losses is NaN, the
  model is saved after epoch \<open>e\<close> if and only if the loss of epoch \<open>e\<close> is strictly
  lower than the loss of every earlier epoch. For the losses 0.5, 0.6, 0.4, 0.4, 0.3 the
  model is saved at epochs 0, 2 and 4 only.
\<close>

theorem checkpoint_on_improvement:
  assumes "train ops td vd n m0 = Inr (st, tr)"
  shows "saved_epochs (ckpt st) = checkpoints (all_valid_avg_loss st)
         \<and> length (all_valid_avg_loss st) = n
         \<and> (0 < n \<longrightarrow> 0 \<in> set (saved_epochs (ckpt st)))
         \<and> ((\<forall>v\<in>set (all_valid_avg_loss st). \<not> is_nan v) \<longrightarrow>
              (\<forall>e<n. e \<in> set (saved_epochs (ckpt st)) \<longleftrightarrow>
                     (\<forall>e'<e. fless (all_valid_avg_loss st ! e) (all_valid_avg_loss st ! e'))))
         \<and> checkpoints [Fin (1 / 2), Fin (3 / 5), Fin (2 / 5), Fin (2 / 5), Fin (3 / 10)] = [0, 2, 4]"
proof -
  let ?vs = "all_valid_avg_loss st"
  have len: "length ?vs = n" and sv: "saved_epochs (ckpt st) = checkpoints ?vs"
    using train_ckpt[OF assms] by auto
  have first: "0 < n \<longrightarrow> 0 \<in> set (saved_epochs (ckpt st))"
    using checkpoints_first[of ?vs] len sv by auto
  have iff: "(\<forall>v\<in>set ?vs. \<not> is_nan v) \<longrightarrow>
              (\<forall>e<n. e \<in> set (saved_epochs (ckpt st)) \<longleftrightarrow> (\<forall>e'<e. fless (?vs ! e) (?vs ! e')))"
    using checkpoints_iff[of ?vs] len sv by simp
  have ex: "checkpoints [Fin (1 / 2), Fin (3 / 5), Fin (2 / 5), Fin (2 / 5), Fin (3 / 10)] = [0, 2, 4]"
    by (simp add: checkpoints_def checkpoint_step_def should_save_def)
  show ?thesis using len sv first iff ex by blast
qed

theorem checkpoint_on_improvement_witness:
  "\<exists>st tr. train replay_ops demo_train_data demo_valid_data 5 0 = Inr (st, tr)
     \<and> all_valid_avg_loss st = [Fin (1 / 2), Fin (3 / 5), Fin (2 / 5), Fin (2 / 5), Fin (3 / 10)]
     \<and> (\<forall>v\<in>set (all_valid_avg_loss st). \<not> is_nan v)
     \<and> saved_epochs (ckpt st) = [0, 2, 4]"
proof -
  have "case train replay_ops demo_train_data demo_valid_data 5 0 of
          Inl e \<Rightarrow> False
        | Inr (st, tr) \<Rightarrow>
            all_valid_avg_loss st = [Fin (1 / 2), Fin (3 / 5), Fin (2 / 5), Fin (2 / 5), Fin (3 / 10)]"
    by code_simp
  then obtain st tr where
    run: "train replay_ops demo_train_data demo_valid_data 5 0 = Inr (st, tr)" and
    vs: "all_valid_avg_loss st = [Fin (1 / 2), Fin (3 / 5), Fin (2 / 5), Fin (2 / 5), Fin (3 / 10)]"
    by (auto split: sum.splits)
  have "saved_epochs (ckpt st) = [0, 2, 4]"
    using checkpoint_on_improvement[OF run] vs by simp
  then show ?thesis using run vs by simp
qed

text \<open>
  The claim as written fails on a NaN, which is not ordered against any loss: in a run
  whose average validation losses are 0.5, NaN, 0.4 the model is saved at epochs 0 and 2,
  although the loss of epoch 2 is not strictly lower than that of epoch 1.
\<close>

theorem checkpoint_nan_counterexample:
  "\<exists>st tr. train replay_ops demo_train_data demo_nan_valid_data 3 0 = Inr (st, tr)
     \<and> all_valid_avg_loss st = [Fin (1 / 2), NaN, Fin (2 / 5)]
     \<and> saved_epochs (ckpt st) = [0, 2]
     \<and> \<not> fless (all_valid_avg_loss st ! 2) (all_valid_avg_loss st ! 1)"
proof -
  have "case train replay_ops demo_train_data demo_nan_valid_data 3 0 of
          Inl e \<Rightarrow> False
        | Inr (st, tr) \<Rightarrow>
            all_valid_avg_loss st = [Fin (1 / 2), NaN, Fin (2 / 5)] \<and> saved_epochs (ckpt st) = [0, 2]"
    by code_simp
  then show ?thesis by (auto split: sum.splits)
qed

section \<open>Properties: the indexes the Evaluator keeps\<close>

lemma pow2_powr: "pow2 k = 2 powr (of_int k)"
proof (cases "0 \<le> k")
  case True
  then have "2 powr (of_int k) = (2::real) powr (real (nat k))" by simp
  also have "\<dots> = 2 ^ nat k" by (simp add: powr_realpow)
  finally show ?thesis using True by (simp add: pow2_def)
next
  case False
  then have "(2::real) powr (of_int k) = 2 powr (- real (nat (- k)))" by simp
  also have "\<dots> = 1 / 2 powr (real (nat (- k)))" by (simp add: powr_minus_divide)
  also have "\<dots> = 1 / 2 ^ nat (- k)" by (simp add: powr_realpow)
  finally show ?thesis using False by (simp add: pow2_def)
qed

lemma pow2_pos: "0 < pow2 k"
  by (simp add: pow2_powr)

lemma pow2_mono: "k \<le> l \<Longrightarrow> pow2 k \<le> pow2 l"
  by (simp add: pow2_powr)

lemma float_exponent_bounds:
  assumes "x \<noteq> 0"
  shows "pow2 (float_exponent x) \<le> \<bar>x\<bar>" "\<bar>x\<bar> < pow2 (float_exponent x + 1)"
proof -
  have p: "0 < \<bar>x\<bar>" using assms by simp
  have a: "of_int (float_exponent x) \<le> log 2 \<bar>x\<bar>" by (simp add: float_exponent_def)
  have b: "log 2 \<bar>x\<bar> < of_int (float_exponent x + 1)" by (simp add: float_exponent_def)
  have "2 powr (of_int (float_exponent x)) \<le> 2 powr (log 2 \<bar>x\<bar>)" using a by simp
  then show "pow2 (float_exponent x) \<le> \<bar>x\<bar>" using p by (simp add: pow2_powr)
  have "2 powr (log 2 \<bar>x\<bar>) < 2 powr (of_int (float_exponent x + 1))" using b by (simp del: of_int_add)
  then show "\<bar>x\<bar> < pow2 (float_exponent x + 1)" using p by (simp add: pow2_powr del: of_int_add)
qed

lemma float_exponent_eqI:
  assumes "pow2 k \<le> \<bar>x\<bar>" "\<bar>x\<bar> < pow2 (k + 1)"
  shows "float_exponent x = k"
proof -
  have p: "0 < \<bar>x\<bar>" using assms(1) pow2_pos[of k] by linarith
  have "2 powr (of_int k) \<le> 2 powr (log 2 \<bar>x\<bar>)" using assms(1) p by (simp add: pow2_powr)
  then have a: "of_int k \<le> log 2 \<bar>x\<bar>" by simp
  have "2 powr (log 2 \<bar>x\<bar>) < 2 powr (of_int (k + 1))" using assms(2) p by (simp add: pow2_powr del: of_int_add)
  then have b: "log 2 \<bar>x\<bar> < of_int (k + 1)" by (simp del: of_int_add)
  show ?thesis unfolding float_exponent_def using a b by (simp add: floor_eq_iff)
qed

lemma round_half_even_le: "x \<le> of_int m \<Longrightarrow> round_half_even x \<le> m"
proof -
  assume a: "x \<le> of_int m"
  have f: "\<lfloor>x\<rfloor> \<le> m" using a by (simp add: floor_le_iff)
  show ?thesis
  proof (cases "\<lfloor>x\<rfloor> = m")
    case True
    then have "x - of_int \<lfloor>x\<rfloor> \<le> 0" using a by simp
    then show ?thesis using True by (simp add: round_half_even_def Let_def)
  next
    case False
    then have "\<lfloor>x\<rfloor> + 1 \<le> m" using f by simp
    then show ?thesis using f by (simp add: round_half_even_def Let_def)
  qed
qed

lemma round_half_even_nonneg: "0 \<le> x \<Longrightarrow> 0 \<le> round_half_even x"
  by (simp add: round_half_even_def Let_def)

lemma round_float64_nonneg: "0 \<le> x \<Longrightarrow> 0 \<le> round_float64 x"
  using pow2_pos[of "float_exponent x - 52"]
  by (simp add: round_float64_def round_half_even_nonneg less_imp_le)

lemma p53: "pow2 53 = 2 ^ 53"
  by (simp add: pow2_def)

lemma lt53: "x \<le> real m \<Longrightarrow> m < 2 ^ 53 \<Longrightarrow> x < 2 ^ 53"
proof -
  assume a: "x \<le> real m" and b: "m < 2 ^ 53"
  have "real m < real (2 ^ 53)" using b by (simp only: of_nat_less_iff)
  then show ?thesis using a by simp
qed

lemma pow2_lt_le: "pow2 e < pow2 53 \<Longrightarrow> e \<le> 52"
proof (rule ccontr)
  assume a: "pow2 e < pow2 53" and "\<not> e \<le> 52"
  then have "53 \<le> e" by simp
  from pow2_mono[OF this] a show False by simp
qed

lemma pow2_neg: "e \<le> 52 \<Longrightarrow> pow2 (e - 52) = 1 / 2 ^ nat (52 - e)"
proof (cases "e = 52")
  case True
  then show ?thesis by (simp add: pow2_def)
next
  case False
  assume "e \<le> 52"
  then have "e - 52 < 0" using False by simp
  then show ?thesis by (simp add: pow2_def)
qed

lemma round_float64_le_nat:
  assumes "0 \<le> x" "x \<le> real m" "m < 2 ^ 53"
  shows "round_float64 x \<le> real m"
proof (cases "x = 0")
  case True
  then show ?thesis by (simp add: round_float64_def)
next
  case False
  let ?e = "float_exponent x"
  let ?u = "pow2 (?e - 52)"
  let ?k = "nat (52 - ?e)"
  have xp: "0 < x" using False assms(1) by simp
  have "pow2 ?e \<le> x" using float_exponent_bounds(1)[OF False] xp by simp
  also have "x < 2 ^ 53" by (rule lt53[OF assms(2,3)])
  finally have "pow2 ?e < pow2 53" by (simp only: p53)
  then have e: "?e \<le> 52" by (rule pow2_lt_le)
  have u: "?u = 1 / 2 ^ ?k" by (rule pow2_neg[OF e])
  have up: "0 < ?u" by (rule pow2_pos)
  have mu: "real m / ?u = of_int (int m * 2 ^ ?k)" unfolding u by simp
  have "x / ?u \<le> real m / ?u" using assms(2) up by (simp only: divide_right_mono less_imp_le)
  then have "x / ?u \<le> of_int (int m * 2 ^ ?k)" by (simp only: mu)
  then have "round_half_even (x / ?u) \<le> int m * 2 ^ ?k" by (rule round_half_even_le)
  then have "real_of_int (round_half_even (x / ?u)) \<le> real_of_int (int m * 2 ^ ?k)"
    by (simp only: of_int_le_iff)
  then have "real_of_int (round_half_even (x / ?u)) * ?u \<le> real_of_int (int m * 2 ^ ?k) * ?u"
    using up by (simp only: mult_right_mono less_imp_le)
  moreover have "real_of_int (int m * 2 ^ ?k) * ?u = real m" unfolding u by simp
  moreover have "round_float64 x = real_of_int (round_half_even (x / ?u)) * ?u"
    using False by (simp only: round_float64_def if_False)
  ultimately show ?thesis by (simp only:)
qed

lemma round_half_even_of_int: "round_half_even (of_int z) = z"
  by (simp add: round_half_even_def)

lemma round_float64_nat:
  assumes "m < 2 ^ 53"
  shows "round_float64 (real m) = real m"
proof (cases "m = 0")
  case True
  then show ?thesis by (simp add: round_float64_def)
next
  case False
  let ?x = "real m"
  let ?e = "float_exponent ?x"
  let ?u = "pow2 (?e - 52)"
  let ?k = "nat (52 - ?e)"
  have ne: "?x \<noteq> 0" using False by simp
  have xp: "0 < ?x" using False by simp
  have "pow2 ?e \<le> ?x" using float_exponent_bounds(1)[OF ne] xp by simp
  also have "?x < 2 ^ 53" by (rule lt53[OF order_refl assms])
  finally have "pow2 ?e < pow2 53" by (simp only: p53)
  then have e: "?e \<le> 52" by (rule pow2_lt_le)
  have u: "?u = 1 / 2 ^ ?k" by (rule pow2_neg[OF e])
  have mu: "?x / ?u = of_int (int m * 2 ^ ?k)" unfolding u by simp
  have r: "round_half_even (?x / ?u) = int m * 2 ^ ?k"
    by (simp only: mu round_half_even_of_int)
  have "round_float64 ?x = real_of_int (round_half_even (?x / ?u)) * ?u"
    using ne by (simp only: round_float64_def if_False)
  also have "\<dots> = real_of_int (int m * 2 ^ ?k) * ?u" by (simp only: r)
  also have "\<dots> = ?x" unfolding u by simp
  finally show ?thesis .
qed

lemma permutation_length: "distinct perm \<Longrightarrow> set perm = {0..<n} \<Longrightarrow> length perm = n"
  using distinct_card by fastforce

lemma num_to_keep_bounds:
  assumes "0 \<le> d" "d \<le> 1" "n < 2 ^ 53"
  shows "0 \<le> \<lfloor>round_float64 (real n * round_float64 (1 - d))\<rfloor>"
        "\<lfloor>round_float64 (real n * round_float64 (1 - d))\<rfloor> \<le> int n"
proof -
  let ?y = "round_float64 (1 - d)"
  have y0: "0 \<le> ?y" using assms(2) by (simp add: round_float64_nonneg)
  have "?y \<le> real 1" using assms(1,2) by (intro round_float64_le_nat) simp_all
  then have y1: "?y \<le> 1" by simp
  have a: "0 \<le> real n * ?y" using y0 by simp
  have b: "real n * ?y \<le> real n" using y1 by (simp add: mult_left_le)
  have c: "round_float64 (real n * ?y) \<le> real n" by (rule round_float64_le_nat[OF a b assms(3)])
  show "0 \<le> \<lfloor>round_float64 (real n * ?y)\<rfloor>" using round_float64_nonneg[OF a] by simp
  show "\<lfloor>round_float64 (real n * ?y)\<rfloor> \<le> int n" using c by (simp add: floor_le_iff)
qed

lemma round_float64_at:
  assumes "pow2 k \<le> \<bar>x\<bar>" "\<bar>x\<bar> < pow2 (k + 1)"
  shows "round_float64 x = of_int (round_half_even (x / pow2 (k - 52))) * pow2 (k - 52)"
proof -
  have "x \<noteq> 0" using assms(1) pow2_pos[of k] by auto
  then show ?thesis by (simp add: round_float64_def float_exponent_eqI[OF assms])
qed

lemma demo_drop_rate_float: "round_float64 demo_drop_rate = demo_drop_rate"
  by (subst round_float64_at[of "-4"]) (simp_all add: pow2_def demo_drop_rate_def round_half_even_def)

lemma demo_keep_rate: "round_float64 (1 - demo_drop_rate) = 8106479329266893 / 9007199254740992"
  by (subst round_float64_at[of "-1"]) (simp_all add: pow2_def demo_drop_rate_def round_half_even_def)

lemma demo_product: "round_float64 (real 100 * (8106479329266893 / 9007199254740992)) = 90"
  by (subst round_float64_at[of 6]) (simp_all add: pow2_def round_half_even_def)

lemma half_float: "round_float64 (1 / 2) = 1 / 2"
  by (subst round_float64_at[of "-1"]) (simp_all add: pow2_def round_half_even_def)

lemma two_float: "round_float64 2 = 2"
  by (subst round_float64_at[of 1]) (simp_all add: pow2_def round_half_even_def)

lemma get_indexes_to_keep_value:
  assumes "\<lfloor>round_float64 (real n * round_float64 (1 - d))\<rfloor> = int k" "k \<le> n" "n < 2 ^ 53"
  shows "get_indexes_to_keep perm n d = Inr (sort (take k perm))"
  using assms(1,2) by (simp add: get_indexes_to_keep_def random_choice_def round_float64_nat[OF assms(3)])

lemma demo_num_to_keep: "\<lfloor>round_float64 (real 100 * round_float64 (1 - demo_drop_rate))\<rfloor> = int 90"
  by (simp only: demo_keep_rate demo_product) simp

lemma demo_exact_floor: "nat \<lfloor>real 100 * (1 - demo_drop_rate)\<rfloor> = 89"
  by (simp add: demo_drop_rate_def)

lemma demo_drop_rate_range: "0 \<le> demo_drop_rate \<and> demo_drop_rate \<le> 1"
  by (simp add: demo_drop_rate_def)

text \<open>
  C10 (as amended). For every length \<open>n\<close> below \<open>2 ^ 53\<close> and every drop rate in
  \<open>[0, 1]\<close>, whatever permutation of \<open>range(n)\<close> the generator draws,
  \<open>get_indexes_to_keep\<close> returns a sorted list of pairwise distinct indexes, each below
  \<open>n\<close>; their number is the floor of the float64 product \<open>n * (1 - drop_rate)\<close>,
  in which the difference and the product are each rounded to a float64 (the length
  itself converts exactly), and it is at most \<open>n\<close>.
\<close>

theorem get_indexes_to_keep_spec:
  assumes "0 \<le> drop_rate" "drop_rate \<le> 1" "n < 2 ^ 53" "distinct perm" "set perm = {0..<n}"
  shows "\<exists>ks. get_indexes_to_keep perm n drop_rate = Inr ks \<and> sorted ks
           \<and> length ks = nat \<lfloor>round_float64 (real n * round_float64 (1 - drop_rate))\<rfloor>
           \<and> length ks \<le> n
           \<and> distinct ks \<and> (\<forall>i\<in>set ks. i < n)"
proof -
  let ?k = "\<lfloor>round_float64 (real n * round_float64 (1 - drop_rate))\<rfloor>"
  have k: "0 \<le> ?k" "?k \<le> int n" using num_to_keep_bounds[OF assms(1,2,3)] by auto
  have g: "get_indexes_to_keep perm n drop_rate = Inr (sort (take (nat ?k) perm))"
    using k by (intro get_indexes_to_keep_value[OF _ _ assms(3)]) simp_all
  have len: "length (take (nat ?k) perm) = nat ?k"
    using k permutation_length[OF assms(4,5)] by simp
  have sub: "set (take (nat ?k) perm) \<subseteq> {0..<n}"
    using set_take_subset[of "nat ?k" perm] assms(5) by simp
  have le: "nat ?k \<le> n" using k by simp
  show ?thesis
    using g len sub le assms(4) by auto
qed

theorem get_indexes_to_keep_spec_witness:
  "(0::real) \<le> 1 / 2 \<and> (1 / 2 :: real) \<le> 1 \<and> (4::nat) < 2 ^ 53
   \<and> distinct [2, 0, 1, 3 :: nat] \<and> set [2, 0, 1, 3] = {0..<4::nat}
   \<and> get_indexes_to_keep [2, 0, 1, 3] 4 (1 / 2) = Inr [0, 2]"
proof -
  have h1: "(0::real) \<le> 1 / 2" and h2: "(1 / 2 :: real) \<le> 1" and h0: "(4::nat) < 2 ^ 53" by simp_all
  have h3: "distinct [2, 0, 1, 3 :: nat]" by simp
  have h4: "set [2, 0, 1, 3] = {0..<4::nat}" by auto
  have k: "\<lfloor>round_float64 (real 4 * round_float64 (1 - 1 / 2))\<rfloor> = int 2"
    by (simp add: half_float two_float)
  have v: "get_indexes_to_keep [2, 0, 1, 3] 4 (1 / 2) = Inr (sort (take 2 [2, 0, 1, 3]))"
    by (rule get_indexes_to_keep_value[OF k _ h0]) simp
  from get_indexes_to_keep_spec[OF h1 h2 h0 h3 h4] obtain ks where
    ks: "get_indexes_to_keep [2, 0, 1, 3] 4 (1 / 2) = Inr ks" "sorted ks" "distinct ks" by blast
  have "ks = [0, 2]" using ks(1) v by simp
  then show ?thesis using ks(1) h1 h2 h0 h3 h4 by blast
qed

text \<open>
  The claim as written fails, because the number of indexes is the floor of the rounded
  product and not of the exact one: for the length 100 and the drop rate 0.1 (the float64
  nearest to it) the function keeps 90 indexes, and the floor of \<open>100 * (1 - drop_rate)\<close>
  is 89.
\<close>

theorem exact_floor_counterexample:
  "\<exists>ks. get_indexes_to_keep [0..<100] 100 demo_drop_rate = Inr ks
     \<and> length ks = 90
     \<and> nat \<lfloor>real 100 * (1 - demo_drop_rate)\<rfloor> = 89
     \<and> round_float64 demo_drop_rate = demo_drop_rate
     \<and> 0 \<le> demo_drop_rate \<and> demo_drop_rate \<le> 1"
proof -
  have le: "(90::nat) \<le> 100" and lt: "(100::nat) < 2 ^ 53" by simp_all
  have g: "get_indexes_to_keep [0..<100] 100 demo_drop_rate = Inr (sort (take 90 [0..<100]))"
    by (rule get_indexes_to_keep_value[OF demo_num_to_keep le lt])
  have l: "length (sort (take 90 [0..<100::nat])) = 90"
    by (simp only: length_sort length_take length_upt)
  show ?thesis
    using g l demo_exact_floor demo_drop_rate_float demo_drop_rate_range by blast
qed

section \<open>Properties: the live Dataset of the vector field\<close>



lemma train_phase_trace:
  "train_phase ops td e st = Inr (st1, avg, t1) \<Longrightarrow>
   t1 = snd (train_windows ops e 0 (windows td) (st, Fin 0))"
  by (auto simp: train_phase_def Let_def split: sum.splits)

lemma valid_phase_trace:
  "valid_phase ops vd e st = Inr (st1, avg, t1) \<Longrightarrow>
   t1 = snd (valid_windows ops e 0 (windows vd) (st, Fin 0))"
  by (auto simp: valid_phase_def Let_def split: sum.splits)

lemma run_epoch_parts:
  assumes "run_epoch ops td vd e st = Inr (st', tr)"
  obtains st1 a1 st2 a2 sv where
    "train_phase ops td e st = Inr (st1, a1, snd (train_windows ops e 0 (windows td) (st, Fin 0)))"
    "valid_phase ops vd e st1 = Inr (st2, a2, snd (valid_windows ops e 0 (windows vd) (st1, Fin 0)))"
    "st' = st2\<lparr>ckpt := checkpoint_step (ckpt st2) e a2\<rparr>"
    "tr = snd (train_windows ops e 0 (windows td) (st, Fin 0))
          @ snd (valid_windows ops e 0 (windows vd) (st1, Fin 0)) @ sv"
    "sv = [] \<or> sv = [(Save e, odefunc_data st2)]"
proof -
  from assms obtain st1 a1 t1 st2 a2 t2 where
    p1: "train_phase ops td e st = Inr (st1, a1, t1)" and
    p2: "valid_phase ops vd e st1 = Inr (st2, a2, t2)" and
    st': "st' = st2\<lparr>ckpt := checkpoint_step (ckpt st2) e a2\<rparr>" and
    tr: "tr = t1 @ t2 @ (if should_save (lowest_valid_avg_loss (ckpt st2)) a2
                         then [(Save e, odefunc_data st2)] else [])"
    by (auto simp: run_epoch_def split: sum.splits)
  show ?thesis
    using that[of st1 a1 st2 a2 "if should_save (lowest_valid_avg_loss (ckpt st2)) a2
                         then [(Save e, odefunc_data st2)] else []"]
      p1 p2 st' tr train_phase_trace[OF p1] valid_phase_trace[OF p2] by auto
qed




















section \<open>Properties: one optimizer step per training window\<close>

lemma optimizer_steps_append: "optimizer_steps (a @ b) = optimizer_steps a @ optimizer_steps b"
  by (induction a rule: optimizer_steps.induct) simp_all

lemma train_windows_steps:
  "optimizer_steps (snd (train_windows ops e i ws s)) = map (Pair e) [i..<i + length ws]"
proof (induction ws arbitrary: i s)
  case Nil
  then show ?case by simp
next
  case (Cons w ws)
  have a: "optimizer_steps (snd (train_window ops e i w s)) = [(e, i)]"
    by (simp add: train_window_def Let_def)
  have u: "[i..<i + length (w # ws)] = i # [Suc i..<Suc i + length ws]"
    using upt_conv_Cons[of i "Suc i + length ws"] by (simp del: upt_Suc)
  show ?case unfolding u
    by (simp add: Let_def optimizer_steps_append a Cons.IH)
qed

lemma valid_windows_steps: "optimizer_steps (snd (valid_windows ops e i ws s)) = []"
proof (induction ws arbitrary: i s)
  case Nil
  then show ?case by simp
next
  case (Cons w ws)
  have a: "optimizer_steps (snd (valid_window ops e i w s)) = []"
    by (simp add: valid_window_def Let_def)
  show ?case by (simp add: Let_def optimizer_steps_append a Cons.IH)
qed

lemma run_epoch_steps:
  assumes "run_epoch ops td vd e st = Inr (st', tr)"
  shows "optimizer_steps tr = map (Pair e) [0..<length (windows td)]"
proof -
  from assms(1) obtain st1 a1 st2 a2 sv where
    p1: "train_phase ops td e st = Inr (st1, a1, snd (train_windows ops e 0 (windows td) (st, Fin 0)))" and
    p2: "valid_phase ops vd e st1 = Inr (st2, a2, snd (valid_windows ops e 0 (windows vd) (st1, Fin 0)))" and
    st': "st' = st2\<lparr>ckpt := checkpoint_step (ckpt st2) e a2\<rparr>" and
    tr: "tr = snd (train_windows ops e 0 (windows td) (st, Fin 0))
          @ snd (valid_windows ops e 0 (windows vd) (st1, Fin 0)) @ sv" and
    sv: "sv = [] \<or> sv = [(Save e, odefunc_data st2)]"
    by (rule run_epoch_parts)
  have c: "optimizer_steps sv = []" using sv by auto
  show ?thesis unfolding tr
    by (simp add: optimizer_steps_append train_windows_steps valid_windows_steps c)
qed

lemma epoch_loop_steps:
  "epoch_loop ops td vd es st = Inr (st', tr) \<Longrightarrow>
   optimizer_steps tr = concat (map (\<lambda>e. map (Pair e) [0..<length (windows td)]) es)"
proof (induction es arbitrary: st tr)
  case Nil
  then show ?case by simp
next
  case (Cons e es)
  from Cons.prems(1) obtain st1 t1 t2 where
    r: "run_epoch ops td vd e st = Inr (st1, t1)" and
    l: "epoch_loop ops td vd es st1 = Inr (st', t2)" and
    tr: "tr = t1 @ t2"
    by (auto split: sum.splits)
  show ?case unfolding tr
    by (simp add: optimizer_steps_append run_epoch_steps[OF r] Cons.IH[OF l])
qed

lemma step_guarded_append: "step_guarded a \<Longrightarrow> step_guarded b \<Longrightarrow> step_guarded (a @ b)"
  unfolding step_guarded_def
proof (intro allI impI)
  fix e i d
  assume A: "\<forall>e i d. (OptimizerStep e i, d) \<in> set a \<longrightarrow>
     (\<exists>pre post l. a = pre @ [(ZeroGrad e i, d), (TrainForward e i, d), (PrintLoss e i l, d),
                                (Backward e i, d), (OptimizerStep e i, d)] @ post)"
    and B: "\<forall>e i d. (OptimizerStep e i, d) \<in> set b \<longrightarrow>
     (\<exists>pre post l. b = pre @ [(ZeroGrad e i, d), (TrainForward e i, d), (PrintLoss e i l, d),
                                (Backward e i, d), (OptimizerStep e i, d)] @ post)"
    and m: "(OptimizerStep e i, d) \<in> set (a @ b)"
  from m consider "(OptimizerStep e i, d) \<in> set a" | "(OptimizerStep e i, d) \<in> set b" by auto
  then show "\<exists>pre post l. a @ b = pre @ [(ZeroGrad e i, d), (TrainForward e i, d), (PrintLoss e i l, d),
                                (Backward e i, d), (OptimizerStep e i, d)] @ post"
  proof cases
    case 1
    with A obtain pre post l where "a = pre @ [(ZeroGrad e i, d), (TrainForward e i, d), (PrintLoss e i l, d),
                                (Backward e i, d), (OptimizerStep e i, d)] @ post" by blast
    then have "a @ b = pre @ [(ZeroGrad e i, d), (TrainForward e i, d), (PrintLoss e i l, d),
                                (Backward e i, d), (OptimizerStep e i, d)] @ (post @ b)" by simp
    then show ?thesis by blast
  next
    case 2
    with B obtain pre post l where "b = pre @ [(ZeroGrad e i, d), (TrainForward e i, d), (PrintLoss e i l, d),
                                (Backward e i, d), (OptimizerStep e i, d)] @ post" by blast
    then have "a @ b = (a @ pre) @ [(ZeroGrad e i, d), (TrainForward e i, d), (PrintLoss e i l, d),
                                (Backward e i, d), (OptimizerStep e i, d)] @ post" by simp
    then show ?thesis by blast
  qed
qed

lemma no_step_guarded:
  "(\<forall>x\<in>set tr. \<forall>e i. fst x \<noteq> OptimizerStep e i) \<Longrightarrow> step_guarded tr"
  by (fastforce simp: step_guarded_def)

lemma valid_windows_no_step:
  "\<forall>x\<in>set (snd (valid_windows ops e i ws s)). \<forall>e' i'. fst x \<noteq> OptimizerStep e' i'"
  by (induction ws arbitrary: i s) (auto simp: Let_def valid_window_def)

lemma train_window_guarded: "step_guarded (snd (train_window ops e i w s))"
  unfolding step_guarded_def
  by (auto simp: train_window_def Let_def intro!: exI[of _ "[]"])

lemma train_windows_guarded: "step_guarded (snd (train_windows ops e i ws s))"
proof (induction ws arbitrary: i s)
  case Nil
  then show ?case by (simp add: step_guarded_def)
next
  case (Cons w ws)
  show ?case
    using step_guarded_append[OF train_window_guarded[of ops e i w s] Cons.IH]
    by (simp add: Let_def)
qed

lemma run_epoch_guarded:
  assumes "run_epoch ops td vd e st = Inr (st', tr)"
  shows "step_guarded tr"
proof -
  from assms(1) obtain st1 a1 st2 a2 sv where
    p1: "train_phase ops td e st = Inr (st1, a1, snd (train_windows ops e 0 (windows td) (st, Fin 0)))" and
    p2: "valid_phase ops vd e st1 = Inr (st2, a2, snd (valid_windows ops e 0 (windows vd) (st1, Fin 0)))" and
    st': "st' = st2\<lparr>ckpt := checkpoint_step (ckpt st2) e a2\<rparr>" and
    tr: "tr = snd (train_windows ops e 0 (windows td) (st, Fin 0))
          @ snd (valid_windows ops e 0 (windows vd) (st1, Fin 0)) @ sv" and
    sv: "sv = [] \<or> sv = [(Save e, odefunc_data st2)]"
    by (rule run_epoch_parts)
  have b: "step_guarded (snd (valid_windows ops e 0 (windows vd) (st1, Fin 0)))"
    by (rule no_step_guarded[OF valid_windows_no_step])
  have c: "step_guarded sv" using sv by (auto simp: step_guarded_def)
  show ?thesis unfolding tr by (intro step_guarded_append train_windows_guarded b c)
qed

lemma epoch_loop_guarded:
  "epoch_loop ops td vd es st = Inr (st', tr) \<Longrightarrow> step_guarded tr"
proof (induction es arbitrary: st tr)
  case Nil
  then show ?case by (simp add: step_guarded_def)
next
  case (Cons e es)
  from Cons.prems(1) obtain st1 t1 t2 where
    r: "run_epoch ops td vd e st = Inr (st1, t1)" and
    l: "epoch_loop ops td vd es st1 = Inr (st', t2)" and
    tr: "tr = t1 @ t2"
    by (auto split: sum.splits)
  show ?case unfolding tr
    by (rule step_guarded_append[OF run_epoch_guarded[OF r] Cons.IH[OF l]])
qed

section \<open>Properties: the average training loss\<close>










section \<open>Properties: the loss of a window\<close>

lemma normal_log_prob_density:
  assumes "0 < sigma"
  shows "normal_log_prob sigma mu x = ln (spec_normal_density sigma mu x)"
proof -
  have p: "0 < sigma * sqrt (2 * pi)" using assms by simp
  have "ln (spec_normal_density sigma mu x)
        = - ((x - mu)\<^sup>2) / (2 * sigma\<^sup>2) - ln (sigma * sqrt (2 * pi))"
    unfolding spec_normal_density_def using p by (simp add: ln_div)
  also have "ln (sigma * sqrt (2 * pi)) = ln sigma + ln (sqrt (2 * pi))"
    using assms by (simp add: ln_mult)
  finally show ?thesis by (simp add: normal_log_prob_def)
qed

lemma sum_list_map2_nth:
  "length a = length b \<Longrightarrow> sum_list (map2 f a b) = (\<Sum>i<length b. f (a ! i) (b ! i))"
proof -
  assume l: "length a = length b"
  have "sum_list (map2 f a b) = (\<Sum>i = 0..<length (map2 f a b). map2 f a b ! i)"
    by (rule sum_list_sum_nth)
  also have "\<dots> = (\<Sum>i = 0..<length b. f (a ! i) (b ! i))"
    using l by (intro sum.cong) auto
  finally show ?thesis by (simp add: lessThan_atLeast0)
qed

lemma nll_loss_spec:
  assumes "0 < sd" "length infect_mu = length infect_window" "infect_window \<noteq> []"
  shows "nll_loss sd infect_mu infect_window = Inr (Fin (spec_neg_mean_log_prob sd infect_mu infect_window))"
proof -
  let ?lp = "map2 (normal_log_prob sd) infect_mu infect_window"
  have ne: "?lp \<noteq> []" using assms(2,3) by (cases infect_mu; cases infect_window) auto
  have len: "length ?lp = length infect_window" using assms(2) by simp
  have s: "sum_list ?lp = (\<Sum>i<length infect_window. ln (spec_normal_density sd (infect_mu ! i) (infect_window ! i)))"
    using sum_list_map2_nth[OF assms(2), of "normal_log_prob sd"]
    by (simp add: normal_log_prob_density[OF assms(1)])
  have "nll_loss sd infect_mu infect_window = Inr (fneg (tensor_mean ?lp))"
    using assms(1,2) by (simp add: nll_loss_def broadcast2_def)
  also have "fneg (tensor_mean ?lp) = Fin (- (sum_list ?lp / real (length infect_window)))"
    using ne len by (simp add: tensor_mean_def)
  finally show ?thesis by (simp add: spec_neg_mean_log_prob_def s)
qed

lemma script_loss_item:
  assumes "0 < sd" "length (squeeze mu) = length (squeeze infect_window)" "squeeze infect_window \<noteq> []"
  shows "loss_item (script_ops sd zg fw bw os) mu (time_window, weather_window, infect_window)
         = Fin (spec_neg_mean_log_prob sd (squeeze mu) (squeeze infect_window))"
  using nll_loss_spec[OF assms] by (simp add: script_ops_def)

lemma script_train_window:
  assumes "0 < sd"
    "length (squeeze (fst (fw Training (odefunc_data (fst s)) (time_window, weather_window, infect_window) (zg (torch (fst s))))))
      = length (squeeze infect_window)"
    "squeeze infect_window \<noteq> []"
  shows "train_window (script_ops sd zg fw bw os) e i (time_window, weather_window, infect_window) s =
     (((fst s)\<lparr>torch := os (bw (snd (fw Training (odefunc_data (fst s)) (time_window, weather_window, infect_window)
                                      (zg (torch (fst s))))))\<rparr>,
       fadd (snd s) (Fin (spec_neg_mean_log_prob sd
          (squeeze (fst (fw Training (odefunc_data (fst s)) (time_window, weather_window, infect_window) (zg (torch (fst s))))))
          (squeeze infect_window)))),
      [(ZeroGrad e i, odefunc_data (fst s)), (TrainForward e i, odefunc_data (fst s)),
       (PrintLoss e i (Fin (spec_neg_mean_log_prob sd
          (squeeze (fst (fw Training (odefunc_data (fst s)) (time_window, weather_window, infect_window) (zg (torch (fst s))))))
          (squeeze infect_window))), odefunc_data (fst s)),
       (Backward e i, odefunc_data (fst s)), (OptimizerStep e i, odefunc_data (fst s))])"
proof -
  have ops: "zero_grad (script_ops sd zg fw bw os) = zg" "model_call (script_ops sd zg fw bw os) = fw"
    "backward (script_ops sd zg fw bw os) = bw" "optimizer_step (script_ops sd zg fw bw os) = os"
    by (simp_all add: script_ops_def)
  show ?thesis
    unfolding train_window_def Let_def ops script_loss_item[OF assms] by simp
qed

lemma log_train_window:
  "torch (fst (fst (train_window (call_log_ops sd predict) e i w s)))
   = torch (fst s) @ [ZeroGradCall, ForwardCall Training (odefunc_data (fst s)), BackwardCall, StepCall]"
  by (simp add: train_window_def call_log_ops_def script_ops_def Let_def)

lemma log_train_windows:
  "torch (fst (fst (train_windows (call_log_ops sd predict) e i ws s)))
   = torch (fst s) @ concat (replicate (length ws)
       [ZeroGradCall, ForwardCall Training (odefunc_data (fst s)), BackwardCall, StepCall])"
proof (induction ws arbitrary: i s)
  case Nil
  then show ?case by simp
next
  case (Cons w ws)
  show ?case
    using Cons.IH[of "Suc i" "fst (train_window (call_log_ops sd predict) e i w s)"]
    by (simp add: Let_def log_train_window train_window_keeps)
qed

lemma log_valid_window:
  "torch (fst (fst (valid_window (call_log_ops sd predict) e i w s)))
   = torch (fst s) @ [ForwardCall Validation ValidData]"
  by (simp add: valid_window_def call_log_ops_def script_ops_def Let_def)

lemma log_valid_windows:
  "torch (fst (fst (valid_windows (call_log_ops sd predict) e i ws s)))
   = torch (fst s) @ replicate (length ws) (ForwardCall Validation ValidData)"
proof (induction ws arbitrary: i s)
  case Nil
  then show ?case by simp
next
  case (Cons w ws)
  show ?case
    using Cons.IH[of "Suc i" "fst (valid_window (call_log_ops sd predict) e i w s)"]
    by (simp add: Let_def log_valid_window replicate_append_same)
qed

lemma log_run_epoch:
  assumes "run_epoch (call_log_ops sd predict) td vd e st = Inr (st', tr)" "odefunc_data st = TrainData"
  shows "torch st' = torch st @ concat (replicate (length (windows td))
            [ZeroGradCall, ForwardCall Training TrainData, BackwardCall, StepCall])
          @ replicate (length (windows vd)) (ForwardCall Validation ValidData)"
proof -
  let ?ops = "call_log_ops sd predict"
  from assms(1) obtain st1 a1 t1 st2 a2 t2 where
    p1: "train_phase ?ops td e st = Inr (st1, a1, t1)" and
    p2: "valid_phase ?ops vd e st1 = Inr (st2, a2, t2)" and
    st': "st' = st2\<lparr>ckpt := checkpoint_step (ckpt st2) e a2\<rparr>"
    by (auto simp: run_epoch_def split: sum.splits)
  have a: "torch st1 = torch st @ concat (replicate (length (windows td))
            [ZeroGradCall, ForwardCall Training TrainData, BackwardCall, StepCall])"
    using p1 log_train_windows[of sd predict e 0 "windows td" "(st, Fin 0)"] assms(2)
    by (auto simp: train_phase_def Let_def split: sum.splits)
  have b: "torch st2 = torch st1 @ replicate (length (windows vd)) (ForwardCall Validation ValidData)"
    using p2 log_valid_windows[of sd predict e 0 "windows vd" "(st1, Fin 0)"]
    by (auto simp: valid_phase_def Let_def split: sum.splits)
  show ?thesis using a b st' by simp
qed

lemma log_epoch_loop:
  "epoch_loop (call_log_ops sd predict) td vd es st = Inr (st', tr) \<Longrightarrow> odefunc_data st = TrainData \<Longrightarrow>
   torch st' = torch st @ concat (replicate (length es)
      (concat (replicate (length (windows td))
            [ZeroGradCall, ForwardCall Training TrainData, BackwardCall, StepCall])
          @ replicate (length (windows vd)) (ForwardCall Validation ValidData)))"
proof (induction es arbitrary: st tr)
  case Nil
  then show ?case by simp
next
  case (Cons e es)
  from Cons.prems(1) obtain st1 t1 t2 where
    r: "run_epoch (call_log_ops sd predict) td vd e st = Inr (st1, t1)" and
    l: "epoch_loop (call_log_ops sd predict) td vd es st1 = Inr (st', t2)"
    by (auto split: sum.splits)
  have d1: "odefunc_data st1 = TrainData" using run_epoch_state[OF r] Cons.prems(2) by auto
  show ?case using log_run_epoch[OF r Cons.prems(2)] Cons.IH[OF l d1] by simp
qed

lemma run_epoch_returns:
  assumes "0 < num_windows td" "0 < num_windows vd"
  shows "\<exists>st' tr. run_epoch ops td vd e st = Inr (st', tr)"
proof -
  obtain k where k: "num_windows td = Suc k" using assms(1) by (cases "num_windows td") auto
  obtain j where j: "num_windows vd = Suc j" using assms(2) by (cases "num_windows vd") auto
  have a: "\<exists>b. fdiv_count a (Suc k) = Inr b" for a k by (cases a) auto
  obtain st1 a1 t1 where p1: "train_phase ops td e st = Inr (st1, a1, t1)"
    using a[of "snd (fst (train_windows ops e 0 (windows td) (st, Fin 0)))" k]
    by (auto simp: train_phase_def Let_def k)
  obtain st2 a2 t2 where p2: "valid_phase ops vd e st1 = Inr (st2, a2, t2)"
    using a[of "snd (fst (valid_windows ops e 0 (windows vd) (st1, Fin 0)))" j]
    by (auto simp: valid_phase_def Let_def j)
  show ?thesis by (simp add: run_epoch_def p1 p2)
qed

lemma epoch_loop_returns:
  assumes "0 < num_windows td" "0 < num_windows vd"
  shows "\<exists>st' tr. epoch_loop ops td vd es st = Inr (st', tr)"
proof (induction es arbitrary: st)
  case Nil
  then show ?case by simp
next
  case (Cons e es)
  obtain st1 t1 where r: "run_epoch ops td vd e st = Inr (st1, t1)"
    using run_epoch_returns[OF assms] by blast
  obtain st2 t2 where l: "epoch_loop ops td vd es st1 = Inr (st2, t2)"
    using Cons.IH by blast
  show ?case by (simp add: r l)
qed

lemma train_returns:
  "0 < num_windows td \<Longrightarrow> 0 < num_windows vd \<Longrightarrow> \<exists>st tr. train ops td vd n m0 = Inr (st, tr)"
  unfolding train_def by (rule epoch_loop_returns)

text \<open>
  C5. In the Trainer of train.py, with a positive scale \<open>sd\<close>, a training window
  whose prediction has as many entries as its target (and at least one) resets the
  gradients, calls the model, takes the backward pass and the optimizer step, in this
  order and each on the result of the one before; the loss it prints and adds to the
  total of the epoch is the negative mean, over the time steps, of the log-probability of
  the target under the Normal distribution centred at the prediction with scale \<open>sd\<close>.
  In a run the optimizer steps are, in order, one for each window of each epoch, each
  directly preceded by the gradient reset, the forward pass, the loss and the backward
  pass of the same window; and the calls torch receives in a run are, epoch after epoch,
  the four calls of each training window followed by one model call for each validation
  window.
\<close>

theorem loss_and_step_per_window:
  assumes "train (script_ops sd zg fw bw os) td vd n m0 = Inr (st, tr)" and "0 < sd"
  shows "(\<forall>e i time_window weather_window infect_window s.
            length (squeeze (fst (fw Training (odefunc_data (fst s)) (time_window, weather_window, infect_window)
                                    (zg (torch (fst s))))))
              = length (squeeze infect_window) \<and> squeeze infect_window \<noteq> [] \<longrightarrow>
            train_window (script_ops sd zg fw bw os) e i (time_window, weather_window, infect_window) s =
              (((fst s)\<lparr>torch := os (bw (snd (fw Training (odefunc_data (fst s))
                                               (time_window, weather_window, infect_window) (zg (torch (fst s))))))\<rparr>,
                fadd (snd s) (Fin (spec_neg_mean_log_prob sd
                   (squeeze (fst (fw Training (odefunc_data (fst s)) (time_window, weather_window, infect_window)
                                     (zg (torch (fst s))))))
                   (squeeze infect_window)))),
               [(ZeroGrad e i, odefunc_data (fst s)), (TrainForward e i, odefunc_data (fst s)),
                (PrintLoss e i (Fin (spec_neg_mean_log_prob sd
                   (squeeze (fst (fw Training (odefunc_data (fst s)) (time_window, weather_window, infect_window)
                                     (zg (torch (fst s))))))
                   (squeeze infect_window))), odefunc_data (fst s)),
                (Backward e i, odefunc_data (fst s)), (OptimizerStep e i, odefunc_data (fst s))]))
         \<and> optimizer_steps tr = concat (map (\<lambda>e. map (Pair e) [0..<length (windows td)]) [0..<n])
         \<and> (\<forall>e i d. (OptimizerStep e i, d) \<in> set tr \<longrightarrow>
               (\<exists>pre post l. tr = pre @ [(ZeroGrad e i, d), (TrainForward e i, d), (PrintLoss e i l, d),
                                          (Backward e i, d), (OptimizerStep e i, d)] @ post))
         \<and> (\<forall>predict st' tr'. train (call_log_ops sd predict) td vd n [] = Inr (st', tr') \<longrightarrow>
               torch st' = concat (replicate n
                 (concat (replicate (length (windows td))
                    [ZeroGradCall, ForwardCall Training TrainData, BackwardCall, StepCall])
                  @ replicate (length (windows vd)) (ForwardCall Validation ValidData))))"
proof -
  have l: "epoch_loop (script_ops sd zg fw bw os) td vd [0..<n] (initial_trainer m0) = Inr (st, tr)"
    using assms(1) by (simp add: train_def)
  have a: "\<forall>e i time_window weather_window infect_window s.
            length (squeeze (fst (fw Training (odefunc_data (fst s)) (time_window, weather_window, infect_window)
                                    (zg (torch (fst s))))))
              = length (squeeze infect_window) \<and> squeeze infect_window \<noteq> [] \<longrightarrow>
            train_window (script_ops sd zg fw bw os) e i (time_window, weather_window, infect_window) s =
              (((fst s)\<lparr>torch := os (bw (snd (fw Training (odefunc_data (fst s))
                                               (time_window, weather_window, infect_window) (zg (torch (fst s))))))\<rparr>,
                fadd (snd s) (Fin (spec_neg_mean_log_prob sd
                   (squeeze (fst (fw Training (odefunc_data (fst s)) (time_window, weather_window, infect_window)
                                     (zg (torch (fst s))))))
                   (squeeze infect_window)))),
               [(ZeroGrad e i, odefunc_data (fst s)), (TrainForward e i, odefunc_data (fst s)),
                (PrintLoss e i (Fin (spec_neg_mean_log_prob sd
                   (squeeze (fst (fw Training (odefunc_data (fst s)) (time_window, weather_window, infect_window)
                                     (zg (torch (fst s))))))
                   (squeeze infect_window))), odefunc_data (fst s)),
                (Backward e i, odefunc_data (fst s)), (OptimizerStep e i, odefunc_data (fst s))])"
    using script_train_window[OF assms(2)] by blast
  have b: "optimizer_steps tr = concat (map (\<lambda>e. map (Pair e) [0..<length (windows td)]) [0..<n])"
    by (rule epoch_loop_steps[OF l])
  have c: "\<forall>e i d. (OptimizerStep e i, d) \<in> set tr \<longrightarrow>
               (\<exists>pre post l. tr = pre @ [(ZeroGrad e i, d), (TrainForward e i, d), (PrintLoss e i l, d),
                                          (Backward e i, d), (OptimizerStep e i, d)] @ post)"
    using epoch_loop_guarded[OF l] by (simp add: step_guarded_def)
  have d: "\<forall>predict st' tr'. train (call_log_ops sd predict) td vd n [] = Inr (st', tr') \<longrightarrow>
               torch st' = concat (replicate n
                 (concat (replicate (length (windows td))
                    [ZeroGradCall, ForwardCall Training TrainData, BackwardCall, StepCall])
                  @ replicate (length (windows vd)) (ForwardCall Validation ValidData)))"
  proof (intro allI impI)
    fix predict st' tr'
    assume "train (call_log_ops sd predict) td vd n [] = Inr (st', tr')"
    then have "epoch_loop (call_log_ops sd predict) td vd [0..<n] (initial_trainer []) = Inr (st', tr')"
      by (simp add: train_def)
    from log_epoch_loop[OF this] show "torch st' = concat (replicate n
                 (concat (replicate (length (windows td))
                    [ZeroGradCall, ForwardCall Training TrainData, BackwardCall, StepCall])
                  @ replicate (length (windows vd)) (ForwardCall Validation ValidData)))"
      by (simp add: initial_trainer_def)
  qed
  show ?thesis using a b c d by blast
qed

theorem loss_and_step_per_window_witness:
  "\<exists>st tr. train (call_log_ops (1 / 10) demo_predict) demo_window_data demo_window_data 2 [] = Inr (st, tr)
     \<and> (0::real) < 1 / 10
     \<and> optimizer_steps tr = [(0, 0), (0, 1), (1, 0), (1, 1)]
     \<and> torch st = [ZeroGradCall, ForwardCall Training TrainData, BackwardCall, StepCall,
                   ZeroGradCall, ForwardCall Training TrainData, BackwardCall, StepCall,
                   ForwardCall Validation ValidData, ForwardCall Validation ValidData,
                   ZeroGradCall, ForwardCall Training TrainData, BackwardCall, StepCall,
                   ZeroGradCall, ForwardCall Training TrainData, BackwardCall, StepCall,
                   ForwardCall Validation ValidData, ForwardCall Validation ValidData]"
proof -
  have nw: "0 < num_windows demo_window_data" by (simp add: demo_window_data_def)
  obtain st tr where run: "train (call_log_ops (1 / 10) demo_predict) demo_window_data demo_window_data 2 [] = Inr (st, tr)"
    using train_returns[OF nw nw, of "call_log_ops (1 / 10) demo_predict" 2 "[]"] by auto
  have h2: "(0::real) < 1 / 10" by simp
  have u: "[0..<2] = [0, 1]" by (simp add: upt_rec)
  note t = loss_and_step_per_window[OF run[unfolded call_log_ops_def] h2]
  have s: "optimizer_steps tr = [(0, 0), (0, 1), (1, 0), (1, 1)]"
    using t by (simp add: demo_window_data_def u)
  have "torch st = concat (replicate 2
                 (concat (replicate (length (windows demo_window_data))
                    [ZeroGradCall, ForwardCall Training TrainData, BackwardCall, StepCall])
                  @ replicate (length (windows demo_window_data)) (ForwardCall Validation ValidData)))"
    using t run by blast
  then show ?thesis using run h2 s by (simp add: demo_window_data_def numeral_2_eq_2)
qed

section \<open>Properties: the forward pass of the Model\<close>





lemma forward_cases:
  assumes "forward odeint self rng weather_window infect_window time_window = Inr r"
  obtains h t0 t1 ts qs hs out where
    "length weather_window = length infect_window"
    "encoder self (rev (map2 (@) weather_window infect_window))
       (stake (nat (hidden_dims (hyperparams self))) rng) = Inr h"
    "time_window = t0 # t1 # ts"
    "odeint (field (odefunc self) (data (odefunc self)) t0) h (map (\<lambda>t. t - t0) time_window)
       (rtol (hyperparams self)) (atol (hyperparams self)) (solver (hyperparams self)) = Inr (qs, hs)"
    "Decoder_forward (decoder self) hs = Inr out"
    "r = \<lparr>prediction = out, model_after = self\<lparr>odefunc := (odefunc self)\<lparr>start_time := t0\<rparr>\<rparr>,
          rng_after = sdrop (nat (hidden_dims (hyperparams self))) rng,
          encoder_input = rev (map2 (@) weather_window infect_window),
          h_init = stake (nat (hidden_dims (hyperparams self))) rng,
          ode_times = map (\<lambda>t. t - t0) time_window, ode_queries = qs\<rparr>"
  using assms
  by (auto simp: forward_def cat_features_def Let_def split: sum.splits list.splits if_splits prod.splits)



lemma sorted_between:
  assumes "sorted_wrt (<) ts" "q \<in> set ts"
  shows "hd ts \<le> (q::real)" "q \<le> last ts"
proof -
  have s: "sorted ts" using assms(1) by (rule strict_sorted_imp_sorted)
  obtain i where i: "i < length ts" "ts ! i = q" using assms(2) by (auto simp: in_set_conv_nth)
  have ne: "ts \<noteq> []" using assms(2) by auto
  have "ts ! 0 \<le> ts ! i" using s i(1) by (simp add: sorted_nth_mono)
  then show "hd ts \<le> q" using i ne by (simp add: hd_conv_nth)
  have "ts ! i \<le> ts ! (length ts - 1)" using s i(1) by (intro sorted_nth_mono) auto
  then show "q \<le> last ts" using i ne by (simp add: last_conv_nth)
qed


lemma euler_odeint_queries:
  "euler_odeint f y ts rt ab m = Inr (qs, ys) \<Longrightarrow> q \<in> set qs \<Longrightarrow>
   min (hd ts) (last ts) \<le> q \<and> q \<le> max (hd ts) (last ts)"
proof -
  assume a: "euler_odeint f y ts rt ab m = Inr (qs, ys)" and q: "q \<in> set qs"
  have s: "sorted_wrt (<) ts" and qs: "qs = butlast ts"
    using a by (auto simp: euler_odeint_def split: if_splits)
  have "q \<in> set ts" using q qs by (auto dest: in_set_butlastD)
  then show ?thesis using sorted_between[OF s] by fastforce
qed


lemma demo_forward:
  "forward euler_odeint demo_model demo_rng demo_weather demo_infect demo_times =
     Inr \<lparr>prediction = [[13], [22], [58]],
          model_after = demo_model\<lparr>odefunc := (odefunc demo_model)\<lparr>start_time := 10\<rparr>\<rparr>,
          rng_after = siterate (\<lambda>x. x + 1) 3,
          encoder_input = [[4, 5, 6, 8], [1, 2, 3, 7]],
          h_init = [1, 2],
          ode_times = [0, 1, 3], ode_queries = [0, 1]\<rparr>"
  by (simp add: forward_def cat_features_def demo_model_def demo_rng_def demo_weather_def demo_infect_def
      demo_times_def demo_hyperparameters_def default_hyperparameters_def demo_encoder_def demo_field_def
      euler_odeint_def Decoder_init_def new_linear_def linear_forward_def dot_def demo_theta_def demo_act_def
      Let_def upt_rec eval_nat_numeral)

lemma demo_forward_again:
  "forward euler_odeint (demo_model\<lparr>odefunc := (odefunc demo_model)\<lparr>start_time := 10\<rparr>\<rparr>)
     (siterate (\<lambda>x. x + 1) 3) demo_weather demo_infect demo_times =
     Inr \<lparr>prediction = [[25], [46], [130]],
          model_after = demo_model\<lparr>odefunc := (odefunc demo_model)\<lparr>start_time := 10\<rparr>\<rparr>,
          rng_after = siterate (\<lambda>x. x + 1) 5,
          encoder_input = [[4, 5, 6, 8], [1, 2, 3, 7]],
          h_init = [3, 4],
          ode_times = [0, 1, 3], ode_queries = [0, 1]\<rparr>"
  by (simp add: forward_def cat_features_def demo_model_def demo_rng_def demo_weather_def demo_infect_def
      demo_times_def demo_hyperparameters_def default_hyperparameters_def demo_encoder_def demo_field_def
      euler_odeint_def Decoder_init_def new_linear_def linear_forward_def dot_def demo_theta_def demo_act_def
      Let_def upt_rec eval_nat_numeral)




text \<open>
  C2 (as amended). A forward call that returns has set \<open>start_time\<close> of the vector
  field to the first entry of \<open>time_window\<close> and has passed the integrator that vector
  field and the times minus the first entry, of which the first is 0. The times at which
  the vector field is evaluated are the choice of the integrator: with an integrator that
  evaluates it only between the first and the last time it is given, and a time window
  whose last entry is not before its first, every evaluation time lies between 0 and the
  last entry minus the first; so it is with the explicit Euler steps on the requested
  times.
\<close>

theorem forward_time_zeroing:
  assumes "forward odeint self rng weather_window infect_window time_window = Inr r"
  shows "start_time (odefunc (model_after r)) = time_window ! 0
         \<and> ode_times r = map (\<lambda>t. t - time_window ! 0) time_window
         \<and> ode_times r ! 0 = 0
         \<and> (\<exists>h hs. odeint (field (odefunc self) (data (odefunc self)) (time_window ! 0)) h (ode_times r)
                      (rtol (hyperparams self)) (atol (hyperparams self)) (solver (hyperparams self))
                    = Inr (ode_queries r, hs))
         \<and> ((\<forall>f y ts rt ab m qs ys. odeint f y ts rt ab m = Inr (qs, ys) \<longrightarrow>
                (\<forall>q\<in>set qs. min (hd ts) (last ts) \<le> q \<and> q \<le> max (hd ts) (last ts)))
              \<and> time_window ! 0 \<le> last time_window \<longrightarrow>
             (\<forall>q\<in>set (ode_queries r). 0 \<le> q \<and> q \<le> last time_window - time_window ! 0))
         \<and> (odeint = euler_odeint \<longrightarrow>
             (\<forall>q\<in>set (ode_queries r). 0 \<le> q \<and> q \<le> last time_window - time_window ! 0))"
proof -
  from assms obtain h t0 t1 ts qs hs out where
    tw: "time_window = t0 # t1 # ts" and
    ode: "odeint (field (odefunc self) (data (odefunc self)) t0) h (map (\<lambda>t. t - t0) time_window)
       (rtol (hyperparams self)) (atol (hyperparams self)) (solver (hyperparams self)) = Inr (qs, hs)" and
    r: "model_after r = self\<lparr>odefunc := (odefunc self)\<lparr>start_time := t0\<rparr>\<rparr>"
       "ode_times r = map (\<lambda>t. t - t0) time_window" "ode_queries r = qs"
    by (rule forward_cases) auto
  let ?sh = "map (\<lambda>t. t - t0) time_window"
  have t0: "time_window ! 0 = t0" using tw by simp
  have hd0: "hd ?sh = 0" using tw by simp
  have lst: "last ?sh = last time_window - t0"
    using tw by (simp add: last_map)
  have rng: "(\<forall>q\<in>set qs. min (hd ?sh) (last ?sh) \<le> q \<and> q \<le> max (hd ?sh) (last ?sh)) \<Longrightarrow> t0 \<le> last time_window
             \<Longrightarrow> \<forall>q\<in>set qs. 0 \<le> q \<and> q \<le> last time_window - t0"
    unfolding hd0 lst by auto
  have gen: "(\<forall>f y ts rt ab m qs ys. odeint f y ts rt ab m = Inr (qs, ys) \<longrightarrow>
                (\<forall>q\<in>set qs. min (hd ts) (last ts) \<le> q \<and> q \<le> max (hd ts) (last ts)))
              \<and> time_window ! 0 \<le> last time_window \<longrightarrow>
             (\<forall>q\<in>set (ode_queries r). 0 \<le> q \<and> q \<le> last time_window - time_window ! 0)"
  proof (intro impI, elim conjE)
    assume c: "\<forall>f y ts rt ab m qs ys. odeint f y ts rt ab m = Inr (qs, ys) \<longrightarrow>
                (\<forall>q\<in>set qs. min (hd ts) (last ts) \<le> q \<and> q \<le> max (hd ts) (last ts))"
      and le: "time_window ! 0 \<le> last time_window"
    have "\<forall>q\<in>set qs. min (hd ?sh) (last ?sh) \<le> q \<and> q \<le> max (hd ?sh) (last ?sh)"
      using c ode by blast
    then show "\<forall>q\<in>set (ode_queries r). 0 \<le> q \<and> q \<le> last time_window - time_window ! 0"
      using rng le t0 r(3) by simp
  qed
  have eul: "odeint = euler_odeint \<longrightarrow>
             (\<forall>q\<in>set (ode_queries r). 0 \<le> q \<and> q \<le> last time_window - time_window ! 0)"
  proof
    assume e: "odeint = euler_odeint"
    have s: "sorted_wrt (<) ?sh" using ode unfolding e by (auto simp: euler_odeint_def split: if_splits)
    have ne: "?sh \<noteq> []" using tw by simp
    have "last ?sh \<in> set ?sh" using ne by (rule last_in_set)
    then have "hd ?sh \<le> last ?sh" using sorted_between(1)[OF s] by blast
    then have le: "t0 \<le> last time_window" unfolding hd0 lst by simp
    have "\<forall>q\<in>set qs. min (hd ?sh) (last ?sh) \<le> q \<and> q \<le> max (hd ?sh) (last ?sh)"
      using euler_odeint_queries ode unfolding e by blast
    then show "\<forall>q\<in>set (ode_queries r). 0 \<le> q \<and> q \<le> last time_window - time_window ! 0"
      using rng le t0 r(3) by simp
  qed
  have z: "ode_times r ! 0 = 0" using r(2) tw by simp
  have a: "start_time (odefunc (model_after r)) = time_window ! 0" using r t0 by simp
  have b: "ode_times r = map (\<lambda>t. t - time_window ! 0) time_window" using r t0 by simp
  have c: "\<exists>h hs. odeint (field (odefunc self) (data (odefunc self)) (time_window ! 0)) h (ode_times r)
                      (rtol (hyperparams self)) (atol (hyperparams self)) (solver (hyperparams self))
                    = Inr (ode_queries r, hs)"
    using ode r t0 by auto
  show ?thesis using a b z c gen eul by blast
qed

theorem forward_time_zeroing_witness:
  "\<exists>r. forward euler_odeint demo_model demo_rng demo_weather demo_infect demo_times = Inr r
          \<and> start_time (odefunc (model_after r)) = 10
          \<and> ode_times r = [0, 1, 3] \<and> ode_queries r = [0, 1]
          \<and> (\<forall>q\<in>set (ode_queries r). 0 \<le> q \<and> q \<le> last demo_times - demo_times ! 0)"
proof -
  show ?thesis
    using forward_time_zeroing[OF demo_forward] demo_forward by (simp add: demo_times_def)
qed

text \<open>
  The claim as written fails, because the forward pass does not confine the integrator:
  with an integrator that steps past the last requested time, the vector field is
  evaluated at the relative time 4 for the time window 10, 11, 13, whose last relative
  time is 3.
\<close>

theorem overshooting_integrator_counterexample:
  "\<exists>r. forward overshoot_odeint demo_model demo_rng demo_weather demo_infect demo_times = Inr r
     \<and> ode_times r = [0, 1, 3] \<and> ode_queries r = [0, 1, 4]
     \<and> last demo_times - demo_times ! 0 = 3
     \<and> \<not> (\<forall>q\<in>set (ode_queries r). 0 \<le> q \<and> q \<le> last demo_times - demo_times ! 0)"
proof -
  have "forward overshoot_odeint demo_model demo_rng demo_weather demo_infect demo_times =
     Inr \<lparr>prediction = [[13], [22], [58]],
          model_after = demo_model\<lparr>odefunc := (odefunc demo_model)\<lparr>start_time := 10\<rparr>\<rparr>,
          rng_after = siterate (\<lambda>x. x + 1) 3,
          encoder_input = [[4, 5, 6, 8], [1, 2, 3, 7]],
          h_init = [1, 2],
          ode_times = [0, 1, 3], ode_queries = [0, 1, 4]\<rparr>"
  by (simp add: forward_def cat_features_def demo_model_def demo_rng_def demo_weather_def demo_infect_def
      demo_times_def demo_hyperparameters_def default_hyperparameters_def demo_encoder_def demo_field_def
      overshoot_odeint_def Decoder_init_def new_linear_def linear_forward_def dot_def demo_theta_def demo_act_def
      Let_def upt_rec eval_nat_numeral)
  then show ?thesis by (simp add: demo_times_def)
qed

text \<open>
  C6. In a forward call that returns, row \<open>j\<close> of the input of the Encoder is row
  \<open>W - 1 - j\<close> of the covariate window followed by the same row of the target window,
  and the initial hidden state is the next \<open>hidden_dims\<close> samples of the random
  generator, which the call consumes: the next forward call takes the samples after them.
\<close>

theorem forward_encoder_input:
  assumes "forward odeint self rng weather_window infect_window time_window = Inr r"
  shows "length (encoder_input r) = length weather_window
         \<and> (\<forall>j<length weather_window.
               encoder_input r ! j = weather_window ! (length weather_window - 1 - j)
                                     @ infect_window ! (length weather_window - 1 - j))
         \<and> h_init r = stake (nat (hidden_dims (hyperparams self))) rng
         \<and> rng_after r = sdrop (nat (hidden_dims (hyperparams self))) rng
         \<and> (\<exists>h. encoder self (encoder_input r) (h_init r) = Inr h)
         \<and> (\<forall>w2 i2 t2 r2. forward odeint (model_after r) (rng_after r) w2 i2 t2 = Inr r2 \<longrightarrow>
               h_init r2 = stake (nat (hidden_dims (hyperparams self)))
                             (sdrop (nat (hidden_dims (hyperparams self))) rng))"
proof -
  let ?n = "nat (hidden_dims (hyperparams self))"
  from assms obtain h t0 t1 ts qs hs out where
    len: "length weather_window = length infect_window" and
    enc: "encoder self (rev (map2 (@) weather_window infect_window)) (stake ?n rng) = Inr h" and
    r: "model_after r = self\<lparr>odefunc := (odefunc self)\<lparr>start_time := t0\<rparr>\<rparr>"
       "rng_after r = sdrop ?n rng"
       "encoder_input r = rev (map2 (@) weather_window infect_window)"
       "h_init r = stake ?n rng"
    by (rule forward_cases) auto
  have a: "length (encoder_input r) = length weather_window" using r len by simp
  have b: "\<forall>j<length weather_window.
               encoder_input r ! j = weather_window ! (length weather_window - 1 - j)
                                     @ infect_window ! (length weather_window - 1 - j)"
    using r len by (simp add: rev_nth)
  have c: "\<exists>h. encoder self (encoder_input r) (h_init r) = Inr h" using enc r by auto
  have d: "\<forall>w2 i2 t2 r2. forward odeint (model_after r) (rng_after r) w2 i2 t2 = Inr r2 \<longrightarrow>
               h_init r2 = stake ?n (sdrop ?n rng)"
  proof (intro allI impI)
    fix w2 i2 t2 r2
    assume "forward odeint (model_after r) (rng_after r) w2 i2 t2 = Inr r2"
    then have "h_init r2 = stake (nat (hidden_dims (hyperparams (model_after r)))) (rng_after r)"
      by (rule forward_cases) auto
    then show "h_init r2 = stake ?n (sdrop ?n rng)" using r by simp
  qed
  show ?thesis using a b c d r by blast
qed

theorem forward_encoder_input_witness:
  "\<exists>r r2. forward euler_odeint demo_model demo_rng demo_weather demo_infect demo_times = Inr r
     \<and> encoder_input r = [[4, 5, 6, 8], [1, 2, 3, 7]] \<and> h_init r = [1, 2]
     \<and> forward euler_odeint (model_after r) (rng_after r) demo_weather demo_infect demo_times = Inr r2
     \<and> h_init r2 = [3, 4]
     \<and> h_init r2 = stake 2 (sdrop 2 demo_rng)"
proof -
  let ?r = "\<lparr>prediction = [[13], [22], [58]],
          model_after = demo_model\<lparr>odefunc := (odefunc demo_model)\<lparr>start_time := 10\<rparr>\<rparr>,
          rng_after = siterate (\<lambda>x. x + 1) 3,
          encoder_input = [[4, 5, 6, 8], [1, 2, 3, 7]],
          h_init = [1, 2],
          ode_times = [0, 1, 3], ode_queries = [0, 1 :: real]\<rparr>"
  let ?r2 = "\<lparr>prediction = [[25], [46], [130]],
          model_after = demo_model\<lparr>odefunc := (odefunc demo_model)\<lparr>start_time := 10\<rparr>\<rparr>,
          rng_after = siterate (\<lambda>x. x + 1) 5,
          encoder_input = [[4, 5, 6, 8], [1, 2, 3, 7]],
          h_init = [3, 4],
          ode_times = [0, 1, 3], ode_queries = [0, 1 :: real]\<rparr>"
  have n: "nat (hidden_dims (hyperparams demo_model)) = 2"
    by (simp add: demo_model_def demo_hyperparameters_def)
  have again: "forward euler_odeint (model_after ?r) (rng_after ?r) demo_weather demo_infect demo_times = Inr ?r2"
    using demo_forward_again by simp
  have "h_init ?r2 = stake 2 (sdrop 2 demo_rng)"
    using forward_encoder_input[OF demo_forward] again n by metis
  then show ?thesis using demo_forward again
    by (intro exI[of _ ?r] exI[of _ ?r2]) simp
qed

section \<open>Properties: denormalization in the Evaluator\<close>

lemma test_window_cases:
  assumes "test_window train_data test_data infect_hat gt_infect_window = Inr rep"
  obtains sq mle where
    "pred_infect rep = map (\<lambda>x. x * infect_stds train_data + infect_means train_data) infect_hat"
    "gt_infect rep = map (\<lambda>x. x * infect_stds test_data + infect_means test_data) gt_infect_window"
    "broadcast2 (\<lambda>a b. (a - b)\<^sup>2) (pred_infect rep) (gt_infect rep) = Inr sq"
    "mse_loss rep = tensor_mean sq"
    "nll_loss (1 / 10) (pred_infect rep) (gt_infect rep) = Inr mle"
    "mle_loss rep = mle"
  using assms by (auto simp: test_window_def Let_def split: sum.splits)

text \<open>
  C8 (as amended). In the Evaluator the predicted values are denormalized with the mean and
  standard deviation of the training Dataset, whichever Dataset the window comes from, and
  the ground-truth values with the mean and standard deviation of the test Dataset itself,
  which gives back the raw targets when the test Dataset normalized them with its own
  statistics. The reported mean squared error and negative log-likelihood compare these
  two.
\<close>

theorem evaluator_denormalization:
  assumes "test_window train_data test_data infect_hat gt_infect_window = Inr rep"
  shows "length (pred_infect rep) = length infect_hat
         \<and> (\<forall>i<length infect_hat.
               pred_infect rep ! i = infect_hat ! i * infect_stds train_data + infect_means train_data)
         \<and> length (gt_infect rep) = length gt_infect_window
         \<and> (\<forall>i<length gt_infect_window.
               gt_infect rep ! i = gt_infect_window ! i * infect_stds test_data + infect_means test_data)
         \<and> (\<forall>raw. infect_stds test_data \<noteq> 0 \<longrightarrow>
               gt_infect_window = map (\<lambda>y. (y - infect_means test_data) / infect_stds test_data) raw \<longrightarrow>
               gt_infect rep = raw)
         \<and> (length infect_hat = length gt_infect_window \<longrightarrow> gt_infect_window \<noteq> [] \<longrightarrow>
               mse_loss rep = Fin ((\<Sum>i<length gt_infect_window. (pred_infect rep ! i - gt_infect rep ! i)\<^sup>2)
                                    / real (length gt_infect_window))
               \<and> mle_loss rep = Fin (spec_neg_mean_log_prob (1 / 10) (pred_infect rep) (gt_infect rep)))"
proof -
  from assms obtain sq mle where
    p: "pred_infect rep = map (\<lambda>x. x * infect_stds train_data + infect_means train_data) infect_hat" and
    g: "gt_infect rep = map (\<lambda>x. x * infect_stds test_data + infect_means test_data) gt_infect_window" and
    sq: "broadcast2 (\<lambda>a b. (a - b)\<^sup>2) (pred_infect rep) (gt_infect rep) = Inr sq" and
    mse: "mse_loss rep = tensor_mean sq" and
    nll: "nll_loss (1 / 10) (pred_infect rep) (gt_infect rep) = Inr mle" and
    mle: "mle_loss rep = mle"
    by (rule test_window_cases)
  have a: "length (pred_infect rep) = length infect_hat
           \<and> (\<forall>i<length infect_hat.
               pred_infect rep ! i = infect_hat ! i * infect_stds train_data + infect_means train_data)"
    using p by simp
  have b: "length (gt_infect rep) = length gt_infect_window
           \<and> (\<forall>i<length gt_infect_window.
               gt_infect rep ! i = gt_infect_window ! i * infect_stds test_data + infect_means test_data)"
    using g by simp
  have c: "\<forall>raw. infect_stds test_data \<noteq> 0 \<longrightarrow>
               gt_infect_window = map (\<lambda>y. (y - infect_means test_data) / infect_stds test_data) raw \<longrightarrow>
               gt_infect rep = raw"
    using g by (auto simp: o_def map_idI)
  have d: "length infect_hat = length gt_infect_window \<longrightarrow> gt_infect_window \<noteq> [] \<longrightarrow>
               mse_loss rep = Fin ((\<Sum>i<length gt_infect_window. (pred_infect rep ! i - gt_infect rep ! i)\<^sup>2)
                                    / real (length gt_infect_window))
               \<and> mle_loss rep = Fin (spec_neg_mean_log_prob (1 / 10) (pred_infect rep) (gt_infect rep))"
  proof (intro impI)
    assume l: "length infect_hat = length gt_infect_window" and ne: "gt_infect_window \<noteq> []"
    have l2: "length (pred_infect rep) = length (gt_infect rep)" using p g l by simp
    have ne2: "gt_infect rep \<noteq> []" using g ne by simp
    have lg: "length (gt_infect rep) = length gt_infect_window" using g by simp
    have sqv: "sq = map2 (\<lambda>a b. (a - b)\<^sup>2) (pred_infect rep) (gt_infect rep)"
      using sq l2 by (simp add: broadcast2_def)
    have sqne: "sq \<noteq> []" using sqv l2 ne2 by (cases "pred_infect rep"; cases "gt_infect rep") auto
    have "mse_loss rep = Fin (sum_list sq / real (length sq))"
      using mse sqne by (simp add: tensor_mean_def)
    also have "sum_list sq = (\<Sum>i<length (gt_infect rep). (pred_infect rep ! i - gt_infect rep ! i)\<^sup>2)"
      unfolding sqv by (rule sum_list_map2_nth[OF l2])
    also have "length sq = length (gt_infect rep)" using sqv l2 by simp
    finally have m1: "mse_loss rep = Fin ((\<Sum>i<length gt_infect_window. (pred_infect rep ! i - gt_infect rep ! i)\<^sup>2)
                                    / real (length gt_infect_window))"
      using lg by simp
    have "nll_loss (1 / 10) (pred_infect rep) (gt_infect rep)
          = Inr (Fin (spec_neg_mean_log_prob (1 / 10) (pred_infect rep) (gt_infect rep)))"
      by (rule nll_loss_spec[OF _ l2 ne2]) simp
    then have m2: "mle_loss rep = Fin (spec_neg_mean_log_prob (1 / 10) (pred_infect rep) (gt_infect rep))"
      using nll mle by simp
    show "mse_loss rep = Fin ((\<Sum>i<length gt_infect_window. (pred_infect rep ! i - gt_infect rep ! i)\<^sup>2)
                                    / real (length gt_infect_window))
          \<and> mle_loss rep = Fin (spec_neg_mean_log_prob (1 / 10) (pred_infect rep) (gt_infect rep))"
      using m1 m2 by simp
  qed
  show ?thesis using a b c d by blast
qed

lemma demo_test_window:
  "\<exists>rep. test_window demo_train_data demo_test_data [0] [1] = Inr rep
     \<and> pred_infect rep = [0] \<and> gt_infect rep = [12] \<and> mse_loss rep = Fin 144"
  by (simp add: test_window_def demo_train_data_def demo_test_data_def nll_loss_def broadcast2_def
      tensor_mean_def Let_def)

theorem evaluator_denormalization_witness:
  "\<exists>rep. test_window demo_train_data demo_test_data [0] [1] = Inr rep
     \<and> pred_infect rep = [0] \<and> gt_infect rep = [12] \<and> mse_loss rep = Fin 144
     \<and> mle_loss rep = Fin (spec_neg_mean_log_prob (1 / 10) [0] [12])"
proof -
  obtain rep where
    r: "test_window demo_train_data demo_test_data [0] [1] = Inr rep" and
    v: "pred_infect rep = [0]" "gt_infect rep = [12]" "mse_loss rep = Fin 144"
    using demo_test_window by blast
  have "mle_loss rep = Fin (spec_neg_mean_log_prob (1 / 10) (pred_infect rep) (gt_infect rep))"
    using evaluator_denormalization[OF r] by simp
  then show ?thesis using r v by auto
qed

theorem ground_truth_denormalization_counterexample:
  "map_sum id gt_infect (test_window demo_train_data demo_test_data [0] [1]) = Inr [12]
   \<and> spec_gt_infect demo_train_data [1] = [1]"
  by (simp add: test_window_def demo_train_data_def demo_test_data_def nll_loss_def broadcast2_def
      tensor_mean_def Let_def spec_gt_infect_def)

section \<open>Properties: the job identifier\<close>

declare str_nat.simps [simp del]

lemma digit_char_in: "d < 10 \<Longrightarrow> digit_char d \<in> set ''0123456789''"
  unfolding digit_char_def by (rule nth_mem) simp

lemma digit_char_inj: "a < 10 \<Longrightarrow> b < 10 \<Longrightarrow> digit_char a = digit_char b \<Longrightarrow> a = b"
proof -
  assume a: "a < 10" and b: "b < 10" and e: "digit_char a = digit_char b"
  have d: "distinct ''0123456789''" by simp
  have "a < length ''0123456789''" "b < length ''0123456789''" using a b by simp_all
  then show "a = b" using e d unfolding digit_char_def by (simp only: nth_eq_iff_index_eq)
qed

lemma str_nat_digits: "set (str_nat n) \<subseteq> set ''0123456789''"
proof (induction n rule: str_nat.induct)
  case (1 n)
  show ?case
  proof (cases "n < 10")
    case True
    then show ?thesis using digit_char_in[of n] by (subst str_nat.simps) simp
  next
    case False
    have "n mod 10 < 10" by simp
    then have "digit_char (n mod 10) \<in> set ''0123456789''" by (rule digit_char_in)
    then show ?thesis using False "1.IH" by (subst str_nat.simps) auto
  qed
qed

lemma str_nat_nonempty: "str_nat n \<noteq> []"
  by (subst str_nat.simps) simp

lemma str_nat_single: "str_nat n = [c] \<Longrightarrow> n < 10"
proof (rule ccontr)
  assume s: "str_nat n = [c]" and "\<not> n < 10"
  then have "str_nat (n div 10) @ [digit_char (n mod 10)] = [c]"
    using str_nat.simps[of n] by simp
  then show False using str_nat_nonempty[of "n div 10"] by (cases "str_nat (n div 10)") auto
qed

lemma str_nat_inj: "str_nat n = str_nat m \<Longrightarrow> n = m"
proof (induction n arbitrary: m rule: str_nat.induct)
  case (1 n)
  show ?case
  proof (cases "n < 10")
    case True
    then have sn: "str_nat n = [digit_char n]" by (subst str_nat.simps) simp
    then have "m < 10" using "1.prems" str_nat_single[of m "digit_char n"] by simp
    then have "str_nat m = [digit_char m]" by (subst str_nat.simps) simp
    then show ?thesis using sn "1.prems" True \<open>m < 10\<close> digit_char_inj by simp
  next
    case False
    then have sn: "str_nat n = str_nat (n div 10) @ [digit_char (n mod 10)]"
      by (subst str_nat.simps) simp
    have m10: "\<not> m < 10"
    proof
      assume "m < 10"
      then have "str_nat m = [digit_char m]" by (subst str_nat.simps) simp
      then have "n < 10" using "1.prems" str_nat_single[of n "digit_char m"] by simp
      then show False using False by simp
    qed
    then have sm: "str_nat m = str_nat (m div 10) @ [digit_char (m mod 10)]"
      by (subst str_nat.simps) simp
    have e: "str_nat (n div 10) = str_nat (m div 10)" "digit_char (n mod 10) = digit_char (m mod 10)"
      using "1.prems" sn sm by simp_all
    have d: "n div 10 = m div 10" using "1.IH"[OF False e(1)] .
    have r: "n mod 10 = m mod 10" using digit_char_inj[OF _ _ e(2)] by simp
    show ?thesis using d r by (metis div_mult_mod_eq)
  qed
qed

lemma str_nat_no_char: "c \<notin> set ''0123456789'' \<Longrightarrow> c \<notin> set (str_nat n)"
  using str_nat_digits[of n] by blast

lemma str_int_no_char:
  assumes "c \<notin> set ''-0123456789''"
  shows "c \<notin> set (str_int i)"
proof -
  have c1: "c \<noteq> CHR ''-''" and c2: "c \<notin> set ''0123456789''" using assms by simp_all
  show ?thesis using str_nat_no_char[OF c2] c1 by (simp add: str_int_def)
qed

lemma str_int_no_sep:
  "CHR ''_'' \<notin> set (str_int i)" "CHR '','' \<notin> set (str_int i)" "CHR '' '' \<notin> set (str_int i)"
  by (rule str_int_no_char, simp)+

lemma str_int_nonempty: "str_int i \<noteq> []"
  by (simp add: str_int_def str_nat_nonempty)

lemma str_nat_no_minus: "hd (str_nat n) \<noteq> CHR ''-''"
proof -
  have "hd (str_nat n) \<in> set (str_nat n)" using str_nat_nonempty by simp
  then have "hd (str_nat n) \<in> set ''0123456789''" using str_nat_digits by blast
  then show ?thesis by auto
qed

lemma str_int_inj: "str_int i = str_int j \<Longrightarrow> i = j"
proof -
  assume e: "str_int i = str_int j"
  show "i = j"
  proof (cases "i < 0")
    case True
    have "j < 0"
    proof (rule ccontr)
      assume "\<not> j < 0"
      then have "CHR ''-'' # str_nat (nat (- i)) = str_nat (nat j)" using e True by (simp add: str_int_def)
      then have "hd (str_nat (nat j)) = CHR ''-''" by (metis list.sel(1))
      then show False using str_nat_no_minus by blast
    qed
    then have "str_nat (nat (- i)) = str_nat (nat (- j))" using e True by (simp add: str_int_def)
    then have "nat (- i) = nat (- j)" by (rule str_nat_inj)
    then show ?thesis using True \<open>j < 0\<close> by simp
  next
    case False
    have "\<not> j < 0"
    proof
      assume "j < 0"
      then have "str_nat (nat i) = CHR ''-'' # str_nat (nat (- j))" using e False by (simp add: str_int_def)
      then have "hd (str_nat (nat i)) = CHR ''-''" by simp
      then show False using str_nat_no_minus by blast
    qed
    then have "str_nat (nat i) = str_nat (nat j)" using e False by (simp add: str_int_def)
    then have "nat i = nat j" by (rule str_nat_inj)
    then show ?thesis using False \<open>\<not> j < 0\<close> by simp
  qed
qed

text \<open>Splitting at a separator that occurs on neither side of it.\<close>

lemma split_first_sep:
  assumes "c \<notin> set a" "c \<notin> set b" "a @ c # r = b @ c # s"
  shows "a = b \<and> r = s"
  using assms
proof (induction a arbitrary: b)
  case Nil
  then show ?case by (cases b) auto
next
  case (Cons x a)
  then show ?case by (cases b) auto
qed

lemma split_last_sep:
  assumes "c \<notin> set r" "c \<notin> set s" "a @ c # r = b @ c # s"
  shows "a = b \<and> r = s"
proof -
  have "rev r @ c # rev a = rev s @ c # rev b"
    using arg_cong[OF assms(3), of rev] by simp
  then have "rev r = rev s \<and> rev a = rev b"
    using assms(1,2) by (intro split_first_sep) simp_all
  then show ?thesis by simp
qed

lemma join_items_no_char:
  "c \<noteq> CHR '','' \<Longrightarrow> c \<noteq> CHR '' '' \<Longrightarrow> \<forall>s\<in>set ss. c \<notin> set s \<Longrightarrow> c \<notin> set (join_items ss)"
  by (induction ss rule: join_items.induct) auto

lemma str_int_list_no_underscore: "CHR ''_'' \<notin> set (str_int_list xs)"
proof -
  have "CHR ''_'' \<notin> set (join_items (map str_int xs))"
    by (rule join_items_no_char) (simp_all add: str_int_no_sep)
  then show ?thesis by (simp add: str_int_list_def)
qed

lemma join_items_nonempty: "ss \<noteq> [] \<Longrightarrow> hd ss \<noteq> [] \<Longrightarrow> join_items ss \<noteq> []"
  by (induction ss rule: join_items.induct) auto

lemma join_items_has_comma: "CHR '','' \<in> set (join_items (x # y # ys))"
  by simp

lemma join_items_inj:
  "\<forall>s\<in>set xs. s \<noteq> [] \<and> CHR '','' \<notin> set s \<Longrightarrow> \<forall>s\<in>set ys. s \<noteq> [] \<and> CHR '','' \<notin> set s \<Longrightarrow>
   join_items xs = join_items ys \<Longrightarrow> xs = ys"
proof (induction xs arbitrary: ys rule: join_items.induct)
  case 1
  show ?case
  proof (cases ys)
    case Nil
    then show ?thesis by simp
  next
    case (Cons y ys')
    then have "join_items ys \<noteq> []" using "1.prems"(2) by (intro join_items_nonempty) auto
    then show ?thesis using "1.prems"(3) by simp
  qed
next
  case (2 x)
  show ?case
  proof (cases ys)
    case Nil
    then show ?thesis using "2.prems" by simp
  next
    case (Cons y ys')
    show ?thesis
    proof (cases ys')
      case Nil
      then show ?thesis using "2.prems" Cons by simp
    next
      case (Cons y2 ys'')
      have "CHR '','' \<in> set (join_items ys)" unfolding \<open>ys = y # ys'\<close> Cons by (rule join_items_has_comma)
      moreover have "join_items ys = x" using "2.prems"(3) by simp
      ultimately have "CHR '','' \<in> set x" by (simp only:)
      then show ?thesis using "2.prems"(1) by simp
    qed
  qed
next
  case (3 x y xs)
  show ?case
  proof (cases ys)
    case Nil
    then show ?thesis using "3.prems" by simp
  next
    case (Cons z ys')
    show ?thesis
    proof (cases ys')
      case Nil
      have "CHR '','' \<in> set (join_items (x # y # xs))" by (rule join_items_has_comma)
      moreover have "join_items (x # y # xs) = z" using "3.prems"(3) \<open>ys = z # ys'\<close> Nil by simp
      ultimately have "CHR '','' \<in> set z" by (simp only:)
      then show ?thesis using "3.prems"(2) \<open>ys = z # ys'\<close> by simp
    next
      case (Cons z2 zs)
      have e: "x @ CHR '','' # (CHR '' '' # join_items (y # xs)) = z @ CHR '','' # (CHR '' '' # join_items (z2 # zs))"
        using "3.prems"(3) \<open>ys = z # ys'\<close> Cons by simp
      have cx: "CHR '','' \<notin> set x" using "3.prems"(1) by simp
      have cz: "CHR '','' \<notin> set z" using "3.prems"(2) \<open>ys = z # ys'\<close> by simp
      have s: "x = z \<and> CHR '' '' # join_items (y # xs) = CHR '' '' # join_items (z2 # zs)"
        by (rule split_first_sep[OF cx cz e])
      have "y # xs = z2 # zs"
        by (rule "3.IH") (use "3.prems" \<open>ys = z # ys'\<close> Cons s in auto)
      then show ?thesis using s \<open>ys = z # ys'\<close> Cons by simp
    qed
  qed
qed

lemma str_int_list_inj: "str_int_list xs = str_int_list ys \<Longrightarrow> xs = ys"
proof -
  assume "str_int_list xs = str_int_list ys"
  then have j: "join_items (map str_int xs) = join_items (map str_int ys)"
    by (simp add: str_int_list_def)
  have "map str_int xs = map str_int ys"
    by (rule join_items_inj[OF _ _ j]) (auto simp: str_int_nonempty str_int_no_sep)
  moreover have "inj str_int" by (rule injI) (rule str_int_inj)
  ultimately show "xs = ys" by (simp add: inj_map_eq_map)
qed

lemma get_job_id_fields:
  "get_job_id fmt_1e fmt_str h =
     (region h @ CHR ''_'' # solver h) @ concat (map ((#) CHR ''_'') (job_fields fmt_1e fmt_str h))"
  by (simp add: get_job_id_def job_fields_def)

lemma concat_sep_inj:
  "length fs = length gs \<Longrightarrow> \<forall>f\<in>set fs. c \<notin> set f \<Longrightarrow> \<forall>g\<in>set gs. c \<notin> set g \<Longrightarrow>
   a @ concat (map ((#) c) fs) = b @ concat (map ((#) c) gs) \<Longrightarrow> a = b \<and> fs = gs"
proof (induction fs arbitrary: gs rule: rev_induct)
  case Nil
  then show ?case by simp
next
  case (snoc f fs)
  from snoc.prems(1) obtain g gs' where gs: "gs = gs' @ [g]"
    by (cases gs rule: rev_cases) auto
  have e: "(a @ concat (map ((#) c) fs)) @ c # f = (b @ concat (map ((#) c) gs')) @ c # g"
    using snoc.prems(4) gs by simp
  have cf: "c \<notin> set f" using snoc.prems(2) by simp
  have cg: "c \<notin> set g" using snoc.prems(3) gs by simp
  have s: "a @ concat (map ((#) c) fs) = b @ concat (map ((#) c) gs') \<and> f = g"
    by (rule split_last_sep[OF cf cg e])
  have "a = b \<and> fs = gs'"
    by (rule snoc.IH) (use snoc.prems gs s in auto)
  then show ?case using s gs by simp
qed

lemma job_fields_no_underscore:
  assumes "\<forall>x. CHR ''_'' \<notin> set (fmt_1e x)" "\<forall>x. CHR ''_'' \<notin> set (fmt_str x)"
  shows "\<forall>f\<in>set (job_fields fmt_1e fmt_str h). CHR ''_'' \<notin> set f"
  using assms by (simp add: job_fields_def str_int_list_no_underscore str_int_no_sep)

text \<open>
  C9 (as amended). The job identifier is a function of the hyperparameters. Provided that
  the printed forms of floats contain no underscore, two lists of hyperparameters with the
  same identifier have the same layer widths for the three components, the same hidden
  size, window length and epoch count, the same printed learning rate and tolerances, and
  the same text \<open>region_solver\<close>; they have the same region and the same solver as
  well when neither solver, or neither region, contains an underscore.
\<close>

theorem job_id_determines_fields:
  assumes "\<forall>x. CHR ''_'' \<notin> set (fmt_1e x)" and "\<forall>x. CHR ''_'' \<notin> set (fmt_str x)"
    and "get_job_id fmt_1e fmt_str h1 = get_job_id fmt_1e fmt_str h2"
  shows "region h1 @ ''_'' @ solver h1 = region h2 @ ''_'' @ solver h2
         \<and> fmt_1e (lr h1) = fmt_1e (lr h2)
         \<and> encoder_fc_dims h1 = encoder_fc_dims h2
         \<and> hidden_dims h1 = hidden_dims h2
         \<and> odefunc_fc_dims h1 = odefunc_fc_dims h2
         \<and> decoder_fc_dims h1 = decoder_fc_dims h2
         \<and> window_length h1 = window_length h2
         \<and> num_epochs h1 = num_epochs h2
         \<and> fmt_str (rtol h1) = fmt_str (rtol h2)
         \<and> fmt_str (atol h1) = fmt_str (atol h2)
         \<and> ((CHR ''_'' \<notin> set (solver h1) \<and> CHR ''_'' \<notin> set (solver h2))
              \<or> (CHR ''_'' \<notin> set (region h1) \<and> CHR ''_'' \<notin> set (region h2))
             \<longrightarrow> region h1 = region h2 \<and> solver h1 = solver h2)"
proof -
  have e: "(region h1 @ CHR ''_'' # solver h1) @ concat (map ((#) CHR ''_'') (job_fields fmt_1e fmt_str h1))
         = (region h2 @ CHR ''_'' # solver h2) @ concat (map ((#) CHR ''_'') (job_fields fmt_1e fmt_str h2))"
    using assms(3) by (simp only: get_job_id_fields)
  have len: "length (job_fields fmt_1e fmt_str h1) = length (job_fields fmt_1e fmt_str h2)"
    by (simp add: job_fields_def)
  have s: "region h1 @ CHR ''_'' # solver h1 = region h2 @ CHR ''_'' # solver h2
           \<and> job_fields fmt_1e fmt_str h1 = job_fields fmt_1e fmt_str h2"
    by (rule concat_sep_inj[OF len job_fields_no_underscore[OF assms(1,2)]
          job_fields_no_underscore[OF assms(1,2)] e])
  then have rs: "region h1 @ CHR ''_'' # solver h1 = region h2 @ CHR ''_'' # solver h2"
    and f: "job_fields fmt_1e fmt_str h1 = job_fields fmt_1e fmt_str h2" by simp_all
  have f1: "fmt_1e (lr h1) = fmt_1e (lr h2)" using f by (simp add: job_fields_def)
  have f2: "str_int_list (encoder_fc_dims h1) = str_int_list (encoder_fc_dims h2)"
    using f by (simp add: job_fields_def)
  have f3: "str_int (hidden_dims h1) = str_int (hidden_dims h2)" using f by (simp add: job_fields_def)
  have f4: "str_int_list (odefunc_fc_dims h1) = str_int_list (odefunc_fc_dims h2)"
    using f by (simp add: job_fields_def)
  have f5: "str_int_list (decoder_fc_dims h1) = str_int_list (decoder_fc_dims h2)"
    using f by (simp add: job_fields_def)
  have f6: "str_int (window_length h1) = str_int (window_length h2)" using f by (simp add: job_fields_def)
  have f7: "str_int (num_epochs h1) = str_int (num_epochs h2)" using f by (simp add: job_fields_def)
  have f8: "fmt_str (rtol h1) = fmt_str (rtol h2)" using f by (simp add: job_fields_def)
  have f9: "fmt_str (atol h1) = fmt_str (atol h2)" using f by (simp add: job_fields_def)
  have g: "(CHR ''_'' \<notin> set (solver h1) \<and> CHR ''_'' \<notin> set (solver h2))
              \<or> (CHR ''_'' \<notin> set (region h1) \<and> CHR ''_'' \<notin> set (region h2))
             \<longrightarrow> region h1 = region h2 \<and> solver h1 = solver h2"
    using split_last_sep[OF _ _ rs] split_first_sep[OF _ _ rs] by blast
  show ?thesis
    using rs f1 str_int_list_inj[OF f2] str_int_inj[OF f3] str_int_list_inj[OF f4]
      str_int_list_inj[OF f5] str_int_inj[OF f6] str_int_inj[OF f7] f8 f9 g
    by simp
qed

lemma default_fmt_no_underscore:
  "\<forall>x. CHR ''_'' \<notin> set (default_fmt_1e x)" "\<forall>x. CHR ''_'' \<notin> set (default_fmt_str x)"
  by (simp_all add: default_fmt_1e_def default_fmt_str_def)

lemma demo_job_id_collision:
  "get_job_id default_fmt_1e default_fmt_str (default_hyperparameters\<lparr>region := ''cr_explicit'', solver := ''adams''\<rparr>)
   = get_job_id default_fmt_1e default_fmt_str (default_hyperparameters\<lparr>region := ''cr'', solver := ''explicit_adams''\<rparr>)"
  by (simp add: get_job_id_def default_hyperparameters_def)

theorem job_id_determines_fields_witness:
  "(\<forall>x. CHR ''_'' \<notin> set (default_fmt_1e x)) \<and> (\<forall>x. CHR ''_'' \<notin> set (default_fmt_str x))
   \<and> get_job_id default_fmt_1e default_fmt_str (default_hyperparameters\<lparr>region := ''cr_explicit'', solver := ''adams''\<rparr>)
     = get_job_id default_fmt_1e default_fmt_str (default_hyperparameters\<lparr>region := ''cr'', solver := ''explicit_adams''\<rparr>)
   \<and> ''cr_explicit'' @ ''_'' @ ''adams'' = ''cr'' @ ''_'' @ ''explicit_adams''
   \<and> get_job_id default_fmt_1e default_fmt_str default_hyperparameters
     = ''cr_euler_lr3.0e-04_enc[8, 16, 8]_hidden4_ode[64, 64]_dec[8, 16, 8]_window128_epochs1_rtol0.0001_atol1e-06''"
proof -
  have a: "''cr_explicit'' @ ''_'' @ ''adams'' = ''cr'' @ ''_'' @ ''explicit_adams''"
    using job_id_determines_fields[OF default_fmt_no_underscore demo_job_id_collision] by simp
  have b: "get_job_id default_fmt_1e default_fmt_str default_hyperparameters
     = ''cr_euler_lr3.0e-04_enc[8, 16, 8]_hidden4_ode[64, 64]_dec[8, 16, 8]_window128_epochs1_rtol0.0001_atol1e-06''"
    by (simp add: get_job_id_def default_hyperparameters_def default_fmt_1e_def default_fmt_str_def
        str_int_list_def str_int_def str_nat.simps digit_char_def)
  show ?thesis using a b default_fmt_no_underscore demo_job_id_collision by simp
qed

text \<open>
  The claim as written fails: the region \<open>cr_explicit\<close> with the solver \<open>adams\<close> and the
  region \<open>cr\<close> with the solver \<open>explicit_adams\<close> get the same job identifier.
\<close>

theorem job_id_collision_counterexample:
  "get_job_id default_fmt_1e default_fmt_str (default_hyperparameters\<lparr>region := ''cr_explicit'', solver := ''adams''\<rparr>)
   = get_job_id default_fmt_1e default_fmt_str (default_hyperparameters\<lparr>region := ''cr'', solver := ''explicit_adams''\<rparr>)
   \<and> default_hyperparameters\<lparr>region := ''cr_explicit'', solver := ''adams''\<rparr>
     \<noteq> default_hyperparameters\<lparr>region := ''cr'', solver := ''explicit_adams''\<rparr>"
  by (simp add: get_job_id_def default_hyperparameters_def)

end
